theory Spec2Isabelle
  imports Complex_Main "HOL-Library.Multiset"
begin

section \<open>Tensors, errors and the library operations used by the notebook\<close>

text \<open>
  The notebook \<open>Transformers.ipynb\<close> defines three torch modules: \<open>SelfAttention\<close>,
  \<open>TransformerBlock\<close> and \<open>TextClassificationTransformer\<close>.  This theory embeds them
  twice.  The first embedding idealises floating-point numbers as \<^typ>\<open>real\<close>: it
  serves the statements about the structure of the computation (which tensors are combined,
  in which order, with which shapes) and about relations between two runs.  The second
  embedding, further down, computes with float32 values including the infinities and
  \<open>NaN\<close>: it serves the statements about whether a value is defined.

  A tensor carries its shape (what \<open>x.size()\<close> returns) together with its entries, stored
  as nested lists in row-major order.  The shape is kept explicitly because a tensor with an
  empty leading axis still has its trailing dimensions.
\<close>

datatype error = ShapeMismatch | IndexOutOfRange | TypeError

type_synonym vec = "real list"
type_synonym mat = "real list list"
type_synonym tensor3 = "real list list list"

record 'a tensor =
  shape :: "nat list"
  vals :: 'a

definition bind_err :: "error + 'a \<Rightarrow> ('a \<Rightarrow> error + 'b) \<Rightarrow> error + 'b" where
  "bind_err r f = (case r of Inl e \<Rightarrow> Inl e | Inr v \<Rightarrow> f v)"

text \<open>Well-shaped tensors: the nested lists have the lengths the shape announces.\<close>

definition has_shape2 :: "nat \<Rightarrow> nat \<Rightarrow> 'a list list \<Rightarrow> bool" where
  "has_shape2 b t m \<longleftrightarrow> length m = b \<and> (\<forall>r\<in>set m. length r = t)"

definition has_shape3 :: "nat \<Rightarrow> nat \<Rightarrow> nat \<Rightarrow> 'a list list list \<Rightarrow> bool" where
  "has_shape3 b t k x \<longleftrightarrow> length x = b \<and> (\<forall>m\<in>set x. has_shape2 t k m)"

subsection \<open>nn.Linear\<close>

text \<open>
  \<open>nn.Linear(in_features, out_features, bias)\<close> holds a weight of shape
  \<open>[out_features, in_features]\<close> and an optional bias of shape \<open>[out_features]\<close>; it maps
  a vector \<open>v\<close> to \<open>v W\<^sup>T + b\<close> along the last axis and raises when the last axis of the
  input is not \<open>in_features\<close> long.
\<close>

record Linear =
  in_features :: nat
  out_features :: nat
  weight :: mat
  bias :: "vec option"

definition wf_Linear :: "Linear \<Rightarrow> bool" where
  "wf_Linear L \<longleftrightarrow> has_shape2 (out_features L) (in_features L) (weight L) \<and>
     (case bias L of None \<Rightarrow> True | Some c \<Rightarrow> length c = out_features L)"

definition Linear_vec :: "Linear \<Rightarrow> vec \<Rightarrow> vec" where
  "Linear_vec L v =
     map (\<lambda>j. (\<Sum>i\<leftarrow>[0..<in_features L]. v ! i * weight L ! j ! i)
              + (case bias L of None \<Rightarrow> 0 | Some c \<Rightarrow> c ! j))
         [0..<out_features L]"

definition Linear_forward :: "Linear \<Rightarrow> tensor3 tensor \<Rightarrow> error + tensor3 tensor" where
  "Linear_forward L x =
     (case shape x of
        [b, t, d] \<Rightarrow>
          if d = in_features L
          then Inr \<lparr>shape = [b, t, out_features L], vals = map (map (Linear_vec L)) (vals x)\<rparr>
          else Inl ShapeMismatch
      | _ \<Rightarrow> Inl ShapeMismatch)"

definition Linear_forward2 :: "Linear \<Rightarrow> mat tensor \<Rightarrow> error + mat tensor" where
  "Linear_forward2 L x =
     (case shape x of
        [b, d] \<Rightarrow>
          if d = in_features L
          then Inr \<lparr>shape = [b, out_features L], vals = map (Linear_vec L) (vals x)\<rparr>
          else Inl ShapeMismatch
      | _ \<Rightarrow> Inl ShapeMismatch)"

subsection \<open>view, transpose, bmm, softmax\<close>

text \<open>
  \<open>view_last n m\<close> splits the leading axis of length \<open>n * m\<close> into \<open>n\<close> consecutive
  blocks of length \<open>m\<close>: entry \<open>[i][j]\<close> of the result is entry \<open>[i * m + j]\<close> of the
  argument, which is what \<open>view\<close> does on a contiguous tensor.
\<close>

definition view_last :: "nat \<Rightarrow> nat \<Rightarrow> 'a list \<Rightarrow> 'a list list" where
  "view_last n m v = map (\<lambda>i. take m (drop (i * m) v)) [0..<n]"

text \<open>
  \<open>transpose_n n m\<close> swaps the two leading axes of \<open>m\<close>, whose second axis has length
  \<open>n\<close>: entry \<open>[j][i]\<close> of the result is entry \<open>[i][j]\<close> of the argument.
\<close>

definition transpose_n :: "nat \<Rightarrow> 'a list list \<Rightarrow> 'a list list" where
  "transpose_n n m = map (\<lambda>j. map (\<lambda>row. row ! j) m) [0..<n]"

text \<open>
  \<open>matmul m q a c\<close> is the product of \<open>a\<close> (with \<open>m\<close> columns) and \<open>c\<close> (with \<open>m\<close> rows
  and \<open>q\<close> columns); \<open>bmm\<close> applies it to each pair of matrices of two batches.
\<close>

definition matmul :: "nat \<Rightarrow> nat \<Rightarrow> mat \<Rightarrow> mat \<Rightarrow> mat" where
  "matmul m q a c = map (\<lambda>row. map (\<lambda>j. \<Sum>d\<leftarrow>[0..<m]. row ! d * c ! d ! j) [0..<q]) a"

definition bmm :: "nat \<Rightarrow> nat \<Rightarrow> tensor3 \<Rightarrow> tensor3 \<Rightarrow> tensor3" where
  "bmm m q A C = map2 (matmul m q) A C"

text \<open>
  \<open>F.softmax(w, dim=-1)\<close>, by its documentation: each entry of a row is its exponential
  divided by the sum of the exponentials of the row.
\<close>

definition softmax :: "vec \<Rightarrow> vec" where
  "softmax row = map (\<lambda>s. exp s / (\<Sum>u\<leftarrow>row. exp u)) row"

text \<open>
  The numerically stable softmax of the specification: the maximum of the row is
  subtracted from every entry before exponentiating.
\<close>

definition stable_softmax :: "vec \<Rightarrow> vec" where
  "stable_softmax row =
     (if row = [] then []
      else map (\<lambda>s. exp (s - Max (set row)) / (\<Sum>u\<leftarrow>row. exp (u - Max (set row)))) row)"

section \<open>SelfAttention\<close>

record SelfAttention =
  sa_k :: nat
  sa_h :: nat
  Wq :: Linear
  Wk :: Linear
  Wv :: Linear
  unifyheads :: Linear

text \<open>
  What \<open>SelfAttention.__init__\<close> establishes: three bias-free projections from \<open>k\<close> to
  \<open>k * heads\<close> and the unifying projection, with bias, from \<open>heads * k\<close> to \<open>k\<close>.
\<close>

definition wf_SelfAttention :: "SelfAttention \<Rightarrow> bool" where
  "wf_SelfAttention P \<longleftrightarrow>
     wf_Linear (Wq P) \<and> wf_Linear (Wk P) \<and> wf_Linear (Wv P) \<and> wf_Linear (unifyheads P) \<and>
     in_features (Wq P) = sa_k P \<and> out_features (Wq P) = sa_k P * sa_h P \<and> bias (Wq P) = None \<and>
     in_features (Wk P) = sa_k P \<and> out_features (Wk P) = sa_k P * sa_h P \<and> bias (Wk P) = None \<and>
     in_features (Wv P) = sa_k P \<and> out_features (Wv P) = sa_k P * sa_h P \<and> bias (Wv P) = None \<and>
     in_features (unifyheads P) = sa_h P * sa_k P \<and> out_features (unifyheads P) = sa_k P \<and>
     bias (unifyheads P) \<noteq> None"

text \<open>
  \<open>self.W(x).view(b, t, h, k)\<close>: the projection, then the split of the last axis into
  \<open>h\<close> blocks of \<open>k\<close>; \<open>view\<close> raises when the numbers of entries differ.
\<close>

definition project_heads ::
    "Linear \<Rightarrow> nat \<Rightarrow> nat \<Rightarrow> tensor3 tensor \<Rightarrow> error + real list list list list" where
  "project_heads W h k x =
     bind_err (Linear_forward W x) (\<lambda>y.
       if prod_list (shape y) = prod_list (butlast (shape y)) * h * k
       then Inr (map (map (view_last h k)) (vals y))
       else Inl ShapeMismatch)"

text \<open>\<open>y.transpose(1, 2).contiguous().view(b * h, t, k)\<close> for \<open>y\<close> of shape \<open>[b, t, h, k]\<close>.\<close>

definition fold_heads :: "nat \<Rightarrow> real list list list list \<Rightarrow> tensor3" where
  "fold_heads h y = concat (map (transpose_n h) y)"

text \<open>\<open>torch.bmm(queries, keys.transpose(1, 2)) / np.sqrt(k)\<close>, of shape \<open>[b*h, t, t]\<close>.\<close>

definition raw_weights :: "nat \<Rightarrow> nat \<Rightarrow> tensor3 \<Rightarrow> tensor3 \<Rightarrow> tensor3" where
  "raw_weights t k queries keys =
     map (map (map (\<lambda>s. s / sqrt (real k)))) (bmm k t queries (map (transpose_n k) keys))"

text \<open>
  \<open>out.view(b, h, t, k).transpose(1, 2).contiguous().view(b, t, h * k)\<close> for \<open>out\<close> of
  shape \<open>[b*h, t, k]\<close>.
\<close>

definition unfold_heads :: "nat \<Rightarrow> nat \<Rightarrow> nat \<Rightarrow> tensor3 \<Rightarrow> tensor3" where
  "unfold_heads b h t out = map (map concat) (map (transpose_n t) (view_last b h out))"

text \<open>The folded queries, keys and values of \<open>SelfAttention.forward\<close>.\<close>

definition sa_qkv :: "SelfAttention \<Rightarrow> tensor3 tensor \<Rightarrow> error + tensor3 \<times> tensor3 \<times> tensor3" where
  "sa_qkv P x =
     (case shape x of
        [b, t, k] \<Rightarrow>
          bind_err (project_heads (Wq P) (sa_h P) k x) (\<lambda>queries.
          bind_err (project_heads (Wk P) (sa_h P) k x) (\<lambda>keys.
          bind_err (project_heads (Wv P) (sa_h P) k x) (\<lambda>values.
            Inr (fold_heads (sa_h P) queries, fold_heads (sa_h P) keys,
                 fold_heads (sa_h P) values))))
      | _ \<Rightarrow> Inl ShapeMismatch)"

text \<open>The local variables \<open>w_prime\<close> and \<open>w\<close> of \<open>SelfAttention.forward\<close>.\<close>

definition sa_w_prime :: "SelfAttention \<Rightarrow> tensor3 tensor \<Rightarrow> error + tensor3" where
  "sa_w_prime P x =
     bind_err (sa_qkv P x) (\<lambda>(queries, keys, values).
       Inr (raw_weights (shape x ! 1) (shape x ! 2) queries keys))"

definition sa_w :: "SelfAttention \<Rightarrow> tensor3 tensor \<Rightarrow> error + tensor3" where
  "sa_w P x = bind_err (sa_w_prime P x) (\<lambda>w_prime. Inr (map (map softmax) w_prime))"

definition SelfAttention_forward :: "SelfAttention \<Rightarrow> tensor3 tensor \<Rightarrow> error + tensor3 tensor" where
  "SelfAttention_forward P x =
     (case shape x of
        [b, t, k] \<Rightarrow>
          bind_err (sa_qkv P x) (\<lambda>(queries, keys, values).
          bind_err (sa_w P x) (\<lambda>w.
            let out = bmm t k w values;
                out = unfold_heads b (sa_h P) t out
            in Linear_forward (unifyheads P) \<lparr>shape = [b, t, sa_h P * k], vals = out\<rparr>))
      | _ \<Rightarrow> Inl ShapeMismatch)"

section \<open>TransformerBlock\<close>

subsection \<open>nn.LayerNorm, the residual sum and nn.ReLU\<close>

text \<open>
  \<open>nn.LayerNorm(k)\<close> normalises the last axis, of length \<open>k\<close>: it subtracts the mean,
  divides by the square root of the (biased) variance plus \<open>eps\<close>, and applies the learned
  scale and shift.  The notebook keeps the default \<open>eps = 1e-5\<close>.
\<close>

record LayerNorm =
  normalized_shape :: nat
  ln_weight :: vec
  ln_bias :: vec
  eps :: real

definition wf_LayerNorm :: "LayerNorm \<Rightarrow> bool" where
  "wf_LayerNorm N \<longleftrightarrow> length (ln_weight N) = normalized_shape N \<and>
     length (ln_bias N) = normalized_shape N \<and> eps N = 1 / 100000"

definition mean :: "vec \<Rightarrow> real" where
  "mean v = sum_list v / real (length v)"

definition variance :: "vec \<Rightarrow> real" where
  "variance v = (\<Sum>u\<leftarrow>v. (u - mean v)\<^sup>2) / real (length v)"

definition ln_denominator :: "LayerNorm \<Rightarrow> vec \<Rightarrow> real" where
  "ln_denominator N v = sqrt (variance v + eps N)"

definition LayerNorm_vec :: "LayerNorm \<Rightarrow> vec \<Rightarrow> vec" where
  "LayerNorm_vec N v =
     map (\<lambda>i. (v ! i - mean v) / ln_denominator N v * ln_weight N ! i + ln_bias N ! i)
         [0..<normalized_shape N]"

definition LayerNorm_forward :: "LayerNorm \<Rightarrow> tensor3 tensor \<Rightarrow> error + tensor3 tensor" where
  "LayerNorm_forward N x =
     (case shape x of
        [b, t, d] \<Rightarrow>
          if d = normalized_shape N
          then Inr \<lparr>shape = [b, t, d], vals = map (map (LayerNorm_vec N)) (vals x)\<rparr>
          else Inl ShapeMismatch
      | _ \<Rightarrow> Inl ShapeMismatch)"

text \<open>
  The sum of two tensors of the same shape.  Modules built by the constructors only ever
  add tensors of equal shape, so broadcasting between unequal shapes is not modelled and
  unequal shapes are reported as a mismatch.
\<close>

definition tensor_add :: "tensor3 tensor \<Rightarrow> tensor3 tensor \<Rightarrow> error + tensor3 tensor" where
  "tensor_add a c =
     (if shape a = shape c
      then Inr \<lparr>shape = shape a, vals = map2 (map2 (map2 (+))) (vals a) (vals c)\<rparr>
      else Inl ShapeMismatch)"

definition ReLU :: "tensor3 tensor \<Rightarrow> tensor3 tensor" where
  "ReLU x = \<lparr>shape = shape x, vals = map (map (map (\<lambda>u. max 0 u))) (vals x)\<rparr>"

subsection \<open>The block\<close>

text \<open>
  \<open>ff0\<close> and \<open>ff2\<close> are the two linear layers of \<open>self.ff\<close>, the \<open>nn.Sequential\<close> whose
  middle entry is \<open>nn.ReLU()\<close>.
\<close>

record TransformerBlock =
  attention :: SelfAttention
  norm1 :: LayerNorm
  norm2 :: LayerNorm
  ff0 :: Linear
  ff2 :: Linear

definition ff :: "TransformerBlock \<Rightarrow> tensor3 tensor \<Rightarrow> error + tensor3 tensor" where
  "ff B x = bind_err (Linear_forward (ff0 B) x) (\<lambda>y. Linear_forward (ff2 B) (ReLU y))"

definition TransformerBlock_forward ::
    "TransformerBlock \<Rightarrow> tensor3 tensor \<Rightarrow> error + tensor3 tensor" where
  "TransformerBlock_forward B x =
     bind_err (SelfAttention_forward (attention B) x) (\<lambda>x_prime.
     bind_err (tensor_add x_prime x) (\<lambda>s.
     bind_err (LayerNorm_forward (norm1 B) s) (\<lambda>x.
     bind_err (ff B x) (\<lambda>x_prime.
     bind_err (tensor_add x_prime x) (\<lambda>s.
       LayerNorm_forward (norm2 B) s)))))"

text \<open>
  What \<open>TransformerBlock.__init__(k, heads, n_mlp)\<close> establishes; \<open>blk_k\<close> is the
  embedding dimension and the hidden width of the feed-forward layer is whatever
  \<open>out_features (ff0 B)\<close> is.
\<close>

definition blk_k :: "TransformerBlock \<Rightarrow> nat" where
  "blk_k B = sa_k (attention B)"

definition wf_TransformerBlock :: "TransformerBlock \<Rightarrow> bool" where
  "wf_TransformerBlock B \<longleftrightarrow>
     wf_SelfAttention (attention B) \<and> wf_LayerNorm (norm1 B) \<and> wf_LayerNorm (norm2 B) \<and>
     normalized_shape (norm1 B) = blk_k B \<and> normalized_shape (norm2 B) = blk_k B \<and>
     wf_Linear (ff0 B) \<and> wf_Linear (ff2 B) \<and>
     in_features (ff0 B) = blk_k B \<and> in_features (ff2 B) = out_features (ff0 B) \<and>
     out_features (ff2 B) = blk_k B"

section \<open>TextClassificationTransformer\<close>

subsection \<open>nn.Embedding and nn.Sequential\<close>

text \<open>
  \<open>nn.Embedding(num_embeddings, embedding_dim)\<close> is a table of \<open>num_embeddings\<close> rows;
  looking up an index outside \<open>[0, num_embeddings)\<close> raises \<open>IndexError\<close>.
\<close>

record Embedding =
  num_embeddings :: nat
  embedding_dim :: nat
  emb_weight :: mat

definition wf_Embedding :: "Embedding \<Rightarrow> bool" where
  "wf_Embedding E \<longleftrightarrow> has_shape2 (num_embeddings E) (embedding_dim E) (emb_weight E)"

definition Embedding_row :: "Embedding \<Rightarrow> int \<Rightarrow> error + vec" where
  "Embedding_row E i =
     (if 0 \<le> i \<and> i < int (num_embeddings E) then Inr (emb_weight E ! nat i)
      else Inl IndexOutOfRange)"

fun mapM_err :: "('a \<Rightarrow> error + 'b) \<Rightarrow> 'a list \<Rightarrow> error + 'b list" where
  "mapM_err f [] = Inr []"
| "mapM_err f (a # as) =
     bind_err (f a) (\<lambda>v. bind_err (mapM_err f as) (\<lambda>vs. Inr (v # vs)))"

definition Embedding_forward1 :: "Embedding \<Rightarrow> int list tensor \<Rightarrow> error + mat tensor" where
  "Embedding_forward1 E ids =
     bind_err (mapM_err (Embedding_row E) (vals ids)) (\<lambda>rows.
       Inr \<lparr>shape = shape ids @ [embedding_dim E], vals = rows\<rparr>)"

definition Embedding_forward2 :: "Embedding \<Rightarrow> int list list tensor \<Rightarrow> error + tensor3 tensor" where
  "Embedding_forward2 E ids =
     bind_err (mapM_err (mapM_err (Embedding_row E)) (vals ids)) (\<lambda>rows.
       Inr \<lparr>shape = shape ids @ [embedding_dim E], vals = rows\<rparr>)"

definition arange :: "nat \<Rightarrow> int list tensor" where
  "arange t = \<lparr>shape = [t], vals = map int [0..<t]\<rparr>"

text \<open>
  \<open>p.unsqueeze(0).expand(b, t, k)\<close> for \<open>p\<close> of shape \<open>[t, k]\<close>: \<open>b\<close> copies of \<open>p\<close>.
  Both embedding tables are built with the same \<open>k\<close>; an unequal shape is reported as a
  mismatch.
\<close>

definition expand_batch :: "nat \<Rightarrow> nat \<Rightarrow> nat \<Rightarrow> mat tensor \<Rightarrow> error + tensor3 tensor" where
  "expand_batch b t k p =
     (if shape p = [t, k] then Inr \<lparr>shape = [b, t, k], vals = replicate b (vals p)\<rparr>
      else Inl ShapeMismatch)"

fun Sequential_forward :: "TransformerBlock list \<Rightarrow> tensor3 tensor \<Rightarrow> error + tensor3 tensor" where
  "Sequential_forward [] x = Inr x"
| "Sequential_forward (B # Bs) x =
     bind_err (TransformerBlock_forward B x) (Sequential_forward Bs)"

text \<open>\<open>x.mean(dim=1)\<close> for \<open>x\<close> of shape \<open>[b, t, k]\<close>: the average over the time axis.\<close>

definition mean_time :: "nat \<Rightarrow> nat \<Rightarrow> mat \<Rightarrow> vec" where
  "mean_time t k e = map (\<lambda>d. (\<Sum>j\<leftarrow>[0..<t]. e ! j ! d) / real t) [0..<k]"

definition mean_dim1 :: "tensor3 tensor \<Rightarrow> error + mat tensor" where
  "mean_dim1 x =
     (case shape x of
        [b, t, k] \<Rightarrow> Inr \<lparr>shape = [b, k], vals = map (mean_time t k) (vals x)\<rparr>
      | _ \<Rightarrow> Inl ShapeMismatch)"

subsection \<open>The classifier\<close>

record TextClassificationTransformer =
  num_tokens :: nat
  token_emb :: Embedding
  pos_emb :: Embedding
  transformer_blocks :: "TransformerBlock list"
  classification :: Linear

definition TextClassificationTransformer_forward ::
    "TextClassificationTransformer \<Rightarrow> int list list tensor \<Rightarrow> error + mat tensor" where
  "TextClassificationTransformer_forward M x =
     bind_err (Embedding_forward2 (token_emb M) x) (\<lambda>tokens.
       case shape tokens of
         [b, t, k] \<Rightarrow>
           bind_err (Embedding_forward1 (pos_emb M) (arange t)) (\<lambda>p.
           bind_err (expand_batch b t k p) (\<lambda>positions.
           bind_err (tensor_add tokens positions) (\<lambda>embedding.
           bind_err (Sequential_forward (transformer_blocks M) embedding) (\<lambda>x.
           bind_err (mean_dim1 x) (\<lambda>x.
             Linear_forward2 (classification M) x)))))
       | _ \<Rightarrow> Inl ShapeMismatch)"

text \<open>
  What \<open>TextClassificationTransformer.__init__\<close> establishes, with \<open>k\<close> the embedding
  dimension, \<open>max_seq_len\<close> the number of rows of the position table and \<open>num_classes\<close>
  the width of the final projection.
\<close>

definition max_seq_len :: "TextClassificationTransformer \<Rightarrow> nat" where
  "max_seq_len M = num_embeddings (pos_emb M)"

definition num_classes :: "TextClassificationTransformer \<Rightarrow> nat" where
  "num_classes M = out_features (classification M)"

definition model_k :: "TextClassificationTransformer \<Rightarrow> nat" where
  "model_k M = embedding_dim (token_emb M)"

definition wf_TextClassificationTransformer :: "TextClassificationTransformer \<Rightarrow> bool" where
  "wf_TextClassificationTransformer M \<longleftrightarrow>
     wf_Embedding (token_emb M) \<and> wf_Embedding (pos_emb M) \<and>
     num_embeddings (token_emb M) = num_tokens M \<and>
     embedding_dim (pos_emb M) = model_k M \<and>
     (\<forall>B\<in>set (transformer_blocks M). wf_TransformerBlock B \<and> blk_k B = model_k M) \<and>
     wf_Linear (classification M) \<and> in_features (classification M) = model_k M"

section \<open>Construction\<close>

text \<open>
  The constructors are called with keyword arguments.  A signature lists the parameter
  names with their defaults; a call raises \<open>TypeError\<close> when it names a parameter the
  signature does not have or omits one that has no default.
\<close>

type_synonym kwargs = "(string \<times> nat) list"
type_synonym signature = "(string \<times> nat option) list"

definition bind_args :: "signature \<Rightarrow> kwargs \<Rightarrow> error + (string \<Rightarrow> nat)" where
  "bind_args sig kw =
     (if \<not> distinct (map fst kw) then Inl TypeError
      else if \<exists>n\<in>set (map fst kw). n \<notin> set (map fst sig) then Inl TypeError
      else if \<exists>n\<in>set (map fst sig). map_of sig n = Some None \<and> map_of kw n = None
           then Inl TypeError
      else Inr (\<lambda>n. case map_of kw n of
                       Some v \<Rightarrow> v
                     | None \<Rightarrow> (case map_of sig n of Some (Some d) \<Rightarrow> d | _ \<Rightarrow> 0)))"

definition SelfAttention_sig :: signature where
  "SelfAttention_sig = [(''k'', None), (''heads'', Some 8)]"

definition TransformerBlock_sig :: signature where
  "TransformerBlock_sig = [(''k'', None), (''heads'', Some 8), (''n_mlp'', Some 4)]"

definition TextClassificationTransformer_sig :: signature where
  "TextClassificationTransformer_sig =
     [(''k'', None), (''heads'', Some 8), (''depth'', Some 4), (''max_seq_len'', Some 100),
      (''num_tokens'', Some 50000), (''num_classes'', Some 2)]"

text \<open>
  The initial values of the learned parameters are drawn at random by torch.  The
  constructors below take them from an arbitrary function of the parameter's place in the
  module tree and of the row and column; only the shapes are fixed by the code.
\<close>

type_synonym init = "nat list \<Rightarrow> nat \<Rightarrow> nat \<Rightarrow> real"

definition zero_init :: init where
  "zero_init p i j = 0"

definition Linear_init :: "init \<Rightarrow> nat list \<Rightarrow> nat \<Rightarrow> nat \<Rightarrow> bool \<Rightarrow> Linear" where
  "Linear_init ini p n_in n_out with_bias =
     \<lparr>in_features = n_in, out_features = n_out,
      weight = map (\<lambda>i. map (ini (0 # p) i) [0..<n_in]) [0..<n_out],
      bias = (if with_bias then Some (map (ini (1 # p) 0) [0..<n_out]) else None)\<rparr>"

definition LayerNorm_init :: "nat \<Rightarrow> LayerNorm" where
  "LayerNorm_init k =
     \<lparr>normalized_shape = k, ln_weight = replicate k 1, ln_bias = replicate k 0,
      eps = 1 / 100000\<rparr>"

definition Embedding_init :: "init \<Rightarrow> nat list \<Rightarrow> nat \<Rightarrow> nat \<Rightarrow> Embedding" where
  "Embedding_init ini p n k =
     \<lparr>num_embeddings = n, embedding_dim = k,
      emb_weight = map (\<lambda>i. map (ini p i) [0..<k]) [0..<n]\<rparr>"

definition SelfAttention_init :: "init \<Rightarrow> nat list \<Rightarrow> kwargs \<Rightarrow> error + SelfAttention" where
  "SelfAttention_init ini p kw =
     bind_err (bind_args SelfAttention_sig kw) (\<lambda>a.
       let k = a ''k''; heads = a ''heads'' in
       Inr \<lparr>sa_k = k, sa_h = heads,
            Wq = Linear_init ini (0 # p) k (k * heads) False,
            Wk = Linear_init ini (1 # p) k (k * heads) False,
            Wv = Linear_init ini (2 # p) k (k * heads) False,
            unifyheads = Linear_init ini (3 # p) (heads * k) k True\<rparr>)"

definition TransformerBlock_init :: "init \<Rightarrow> nat list \<Rightarrow> kwargs \<Rightarrow> error + TransformerBlock" where
  "TransformerBlock_init ini p kw =
     bind_err (bind_args TransformerBlock_sig kw) (\<lambda>a.
       let k = a ''k''; heads = a ''heads''; n_mlp = a ''n_mlp'' in
       bind_err (SelfAttention_init ini (0 # p) [(''k'', k), (''heads'', heads)]) (\<lambda>att.
         Inr \<lparr>attention = att, norm1 = LayerNorm_init k, norm2 = LayerNorm_init k,
              ff0 = Linear_init ini (1 # p) k (n_mlp * k) True,
              ff2 = Linear_init ini (2 # p) (n_mlp * k) k True\<rparr>))"

definition TextClassificationTransformer_init ::
    "init \<Rightarrow> kwargs \<Rightarrow> error + TextClassificationTransformer" where
  "TextClassificationTransformer_init ini kw =
     bind_err (bind_args TextClassificationTransformer_sig kw) (\<lambda>a.
       let k = a ''k''; heads = a ''heads'' in
       bind_err (mapM_err (\<lambda>i. TransformerBlock_init ini [2, i] [(''k'', k), (''heads'', heads)])
                   [0..<a ''depth'']) (\<lambda>blocks.
         Inr \<lparr>num_tokens = a ''num_tokens'',
              token_emb = Embedding_init ini [0] (a ''num_tokens'') k,
              pos_emb = Embedding_init ini [1] (a ''max_seq_len'') k,
              transformer_blocks = blocks,
              classification = Linear_init ini [3] k (a ''num_classes'') True\<rparr>))"

text \<open>The expansion factor a call of \<open>TransformerBlock\<close> configures: \<open>n_mlp\<close>, or 4 by default.\<close>

definition kw_n_mlp :: "kwargs \<Rightarrow> nat" where
  "kw_n_mlp kw = (case map_of kw ''n_mlp'' of Some n \<Rightarrow> n | None \<Rightarrow> 4)"

section \<open>The computation, one example at a time\<close>

text \<open>
  The functions of this section restate the forward passes for a single example of the
  batch, in the words of the specification; the theorems below prove that the code
  computes them.
\<close>

text \<open>The \<open>h\<close> head matrices, each of shape \<open>[t, k]\<close>, that a projection gives for one example.\<close>

definition heads_of :: "Linear \<Rightarrow> nat \<Rightarrow> nat \<Rightarrow> mat \<Rightarrow> tensor3" where
  "heads_of W h k e = transpose_n h (map (\<lambda>v. view_last h k (Linear_vec W v)) e)"

text \<open>\<open>scores = queries \<cdot> keys\<^sup>T / sqrt(k)\<close> for one head.\<close>

definition head_scores :: "nat \<Rightarrow> mat \<Rightarrow> mat \<Rightarrow> mat" where
  "head_scores k q c =
     map (\<lambda>qi. map (\<lambda>cj. (\<Sum>d\<leftarrow>[0..<k]. qi ! d * cj ! d) / sqrt (real k)) c) q"

definition scaled_scores :: "nat \<Rightarrow> tensor3 \<Rightarrow> tensor3 \<Rightarrow> tensor3" where
  "scaled_scores k queries keys = map2 (head_scores k) queries keys"

text \<open>The weighted sum of the values of one head.\<close>

definition attend :: "nat \<Rightarrow> nat \<Rightarrow> mat \<times> mat \<times> mat \<Rightarrow> mat" where
  "attend t k qcv = (case qcv of (q, c, v) \<Rightarrow> matmul t k (map softmax (head_scores k q c)) v)"

definition weights_example :: "SelfAttention \<Rightarrow> nat \<Rightarrow> mat \<Rightarrow> tensor3" where
  "weights_example P k e =
     map (map softmax)
       (map2 (head_scores k) (heads_of (Wq P) (sa_h P) k e) (heads_of (Wk P) (sa_h P) k e))"

definition sa_example :: "SelfAttention \<Rightarrow> nat \<Rightarrow> nat \<Rightarrow> mat \<Rightarrow> mat" where
  "sa_example P t k e =
     map (Linear_vec (unifyheads P))
       (map concat (transpose_n t (map (attend t k)
          (zip (heads_of (Wq P) (sa_h P) k e)
               (zip (heads_of (Wk P) (sa_h P) k e) (heads_of (Wv P) (sa_h P) k e))))))"

definition add_mat :: "mat \<Rightarrow> mat \<Rightarrow> mat" where
  "add_mat a c = map2 (map2 (+)) a c"

definition x1_example :: "nat \<Rightarrow> nat \<Rightarrow> TransformerBlock \<Rightarrow> mat \<Rightarrow> mat" where
  "x1_example t k B e =
     map (LayerNorm_vec (norm1 B)) (add_mat (sa_example (attention B) t k e) e)"

definition ff_example :: "TransformerBlock \<Rightarrow> mat \<Rightarrow> mat" where
  "ff_example B e =
     map (\<lambda>v. Linear_vec (ff2 B) (map (\<lambda>u. max 0 u) (Linear_vec (ff0 B) v))) e"

definition block_example :: "nat \<Rightarrow> nat \<Rightarrow> TransformerBlock \<Rightarrow> mat \<Rightarrow> mat" where
  "block_example t k B e =
     (let x1 = x1_example t k B e; f = ff_example B x1
      in map (LayerNorm_vec (norm2 B)) (add_mat f x1))"

text \<open>The blocks of the stack, applied in order; no block leaves the example unchanged.\<close>

definition blocks_example :: "nat \<Rightarrow> nat \<Rightarrow> TransformerBlock list \<Rightarrow> mat \<Rightarrow> mat" where
  "blocks_example t k Bs e = foldl (\<lambda>e B. block_example t k B e) e Bs"

definition embed_example :: "TextClassificationTransformer \<Rightarrow> nat \<Rightarrow> int list \<Rightarrow> mat" where
  "embed_example M t ids =
     add_mat (map (\<lambda>i. emb_weight (token_emb M) ! nat i) ids)
             (map (\<lambda>j. emb_weight (pos_emb M) ! j) [0..<t])"

definition classify_example :: "TextClassificationTransformer \<Rightarrow> nat \<Rightarrow> int list \<Rightarrow> vec" where
  "classify_example M t ids =
     Linear_vec (classification M)
       (mean_time t (model_k M)
          (blocks_example t (model_k M) (transformer_blocks M) (embed_example M t ids)))"

text \<open>
  \<open>permute p xs\<close> is \<open>xs[p]\<close>, the entries of \<open>xs\<close> in the order \<open>p\<close>; \<open>p\<close> is a
  permutation of the \<open>t\<close> positions when it lists each of them once.
\<close>

definition permute :: "nat list \<Rightarrow> 'a list \<Rightarrow> 'a list" where
  "permute p xs = map (\<lambda>j. xs ! j) p"

definition is_perm :: "nat \<Rightarrow> nat list \<Rightarrow> bool" where
  "is_perm t p \<longleftrightarrow> mset p = mset [0..<t]"

text \<open>\<open>x[:, p, :]\<close>: the positions of every example of the batch in the order \<open>p\<close>.\<close>

definition permute_positions :: "nat list \<Rightarrow> tensor3 tensor \<Rightarrow> tensor3 tensor" where
  "permute_positions p x = \<lparr>shape = shape x, vals = map (permute p) (vals x)\<rparr>"

text \<open>
  A token-id tensor of shape \<open>[b, t]\<close> is in range for a model when every id and every
  position has a row in its table; it is valid when, moreover, it has at least one example
  and at least one position.
\<close>

definition in_range_ids ::
    "TextClassificationTransformer \<Rightarrow> nat \<Rightarrow> nat \<Rightarrow> int list list tensor \<Rightarrow> bool" where
  "in_range_ids M b t x \<longleftrightarrow> shape x = [b, t] \<and> has_shape2 b t (vals x) \<and> t \<le> max_seq_len M \<and>
     (\<forall>row\<in>set (vals x). \<forall>i\<in>set row. 0 \<le> i \<and> i < int (num_tokens M))"

definition valid_ids ::
    "TextClassificationTransformer \<Rightarrow> nat \<Rightarrow> nat \<Rightarrow> int list list tensor \<Rightarrow> bool" where
  "valid_ids M b t x \<longleftrightarrow> in_range_ids M b t x \<and> 1 \<le> b \<and> 1 \<le> t"

section \<open>Arithmetic with overflow\<close>

text \<open>
  A model over the reals cannot tell whether a value of the program is defined: a single
  precision product that exceeds the largest float is \<open>inf\<close>, and \<open>inf - inf\<close> or \<open>0 / 0\<close>
  is \<open>NaN\<close>.  The second model of this theory therefore computes with the values of a
  float32 tensor (the default type of torch): the finite numbers, the two infinities and
  \<open>NaN\<close>.  Special values follow IEEE 754; a finite result beyond \<open>FLT_MAX\<close> becomes an
  infinity; within the range results are exact, so that rounding, underflow and the sign of
  zero are still idealised; sums accumulate from left to right.
\<close>

datatype fl = Fin real | PInf | NInf | NaN

definition FLT_MAX :: real where
  "FLT_MAX = 340282346638528859811704183484516925440"

definition ovf :: "real \<Rightarrow> fl" where
  "ovf r = (if FLT_MAX < r then PInf else if r < - FLT_MAX then NInf else Fin r)"

fun is_fin :: "fl \<Rightarrow> bool" where
  "is_fin (Fin r) = True"
| "is_fin _ = False"


fun fl_neg :: "fl \<Rightarrow> fl" where
  "fl_neg (Fin a) = Fin (- a)"
| "fl_neg PInf = NInf"
| "fl_neg NInf = PInf"
| "fl_neg NaN = NaN"

fun fl_add :: "fl \<Rightarrow> fl \<Rightarrow> fl" where
  "fl_add (Fin a) (Fin b) = ovf (a + b)"
| "fl_add NaN _ = NaN"
| "fl_add _ NaN = NaN"
| "fl_add PInf NInf = NaN"
| "fl_add NInf PInf = NaN"
| "fl_add PInf _ = PInf"
| "fl_add _ PInf = PInf"
| "fl_add NInf _ = NInf"
| "fl_add _ NInf = NInf"

definition fl_sub :: "fl \<Rightarrow> fl \<Rightarrow> fl" where
  "fl_sub a c = fl_add a (fl_neg c)"

fun fl_mul :: "fl \<Rightarrow> fl \<Rightarrow> fl" where
  "fl_mul (Fin a) (Fin b) = ovf (a * b)"
| "fl_mul NaN _ = NaN"
| "fl_mul _ NaN = NaN"
| "fl_mul PInf (Fin b) = (if b = 0 then NaN else if 0 < b then PInf else NInf)"
| "fl_mul NInf (Fin b) = (if b = 0 then NaN else if 0 < b then NInf else PInf)"
| "fl_mul (Fin a) PInf = (if a = 0 then NaN else if 0 < a then PInf else NInf)"
| "fl_mul (Fin a) NInf = (if a = 0 then NaN else if 0 < a then NInf else PInf)"
| "fl_mul PInf PInf = PInf"
| "fl_mul PInf NInf = NInf"
| "fl_mul NInf PInf = NInf"
| "fl_mul NInf NInf = PInf"

fun fl_div :: "fl \<Rightarrow> fl \<Rightarrow> fl" where
  "fl_div (Fin a) (Fin b) =
     (if b = 0 then (if a = 0 then NaN else if 0 < a then PInf else NInf) else ovf (a / b))"
| "fl_div NaN _ = NaN"
| "fl_div _ NaN = NaN"
| "fl_div (Fin a) PInf = Fin 0"
| "fl_div (Fin a) NInf = Fin 0"
| "fl_div PInf (Fin b) = (if 0 \<le> b then PInf else NInf)"
| "fl_div NInf (Fin b) = (if 0 \<le> b then NInf else PInf)"
| "fl_div PInf PInf = NaN"
| "fl_div PInf NInf = NaN"
| "fl_div NInf PInf = NaN"
| "fl_div NInf NInf = NaN"


fun fl_exp :: "fl \<Rightarrow> fl" where
  "fl_exp (Fin a) = ovf (exp a)"
| "fl_exp PInf = PInf"
| "fl_exp NInf = Fin 0"
| "fl_exp NaN = NaN"

text \<open>The maximum of torch, which returns \<open>NaN\<close> when an argument is \<open>NaN\<close>.\<close>

fun fl_max :: "fl \<Rightarrow> fl \<Rightarrow> fl" where
  "fl_max (Fin a) (Fin b) = Fin (max a b)"
| "fl_max NaN _ = NaN"
| "fl_max _ NaN = NaN"
| "fl_max PInf _ = PInf"
| "fl_max _ PInf = PInf"
| "fl_max NInf c = c"
| "fl_max a NInf = a"

definition fl_sum :: "fl list \<Rightarrow> fl" where
  "fl_sum xs = foldl fl_add (Fin 0) xs"

definition fl_maximum :: "fl list \<Rightarrow> fl" where
  "fl_maximum xs = foldl fl_max (hd xs) (tl xs)"

text \<open>A value a float32 tensor can hold: a special value, or a number within the range.\<close>

fun valid_fl :: "fl \<Rightarrow> bool" where
  "valid_fl (Fin r) \<longleftrightarrow> - FLT_MAX \<le> r \<and> r \<le> FLT_MAX"
| "valid_fl _ \<longleftrightarrow> True"

type_synonym fvec = "fl list"
type_synonym fmat = "fl list list"
type_synonym ftensor3 = "fl list list list"

definition finite3 :: "ftensor3 \<Rightarrow> bool" where
  "finite3 S \<longleftrightarrow> (\<forall>m\<in>set S. \<forall>row\<in>set m. \<forall>s\<in>set row. is_fin s)"

section \<open>The modules on float32 tensors\<close>

text \<open>
  The functions of this section are the forward passes once more, line by line as above,
  on tensors of float32 values.  The learned parameters are finite numbers.
\<close>

definition Linear_vec_fl :: "Linear \<Rightarrow> fvec \<Rightarrow> fvec" where
  "Linear_vec_fl L v =
     map (\<lambda>j. let s = fl_sum (map (\<lambda>i. fl_mul (v ! i) (Fin (weight L ! j ! i)))
                                   [0..<in_features L])
              in (case bias L of None \<Rightarrow> s | Some c \<Rightarrow> fl_add s (Fin (c ! j))))
         [0..<out_features L]"

definition Linear_forward_fl :: "Linear \<Rightarrow> ftensor3 tensor \<Rightarrow> error + ftensor3 tensor" where
  "Linear_forward_fl L x =
     (case shape x of
        [b, t, d] \<Rightarrow>
          if d = in_features L
          then Inr \<lparr>shape = [b, t, out_features L], vals = map (map (Linear_vec_fl L)) (vals x)\<rparr>
          else Inl ShapeMismatch
      | _ \<Rightarrow> Inl ShapeMismatch)"

definition matmul_fl :: "nat \<Rightarrow> nat \<Rightarrow> fmat \<Rightarrow> fmat \<Rightarrow> fmat" where
  "matmul_fl m q a c =
     map (\<lambda>row. map (\<lambda>j. fl_sum (map (\<lambda>d. fl_mul (row ! d) (c ! d ! j)) [0..<m])) [0..<q]) a"

definition bmm_fl :: "nat \<Rightarrow> nat \<Rightarrow> ftensor3 \<Rightarrow> ftensor3 \<Rightarrow> ftensor3" where
  "bmm_fl m q A C = map2 (matmul_fl m q) A C"

text \<open>
  \<open>F.softmax\<close> as torch computes it: the maximum of the row is subtracted, the
  exponentials are taken and divided by their sum.
\<close>

definition softmax_fl :: "fvec \<Rightarrow> fvec" where
  "softmax_fl row =
     (if row = [] then []
      else let es = map (\<lambda>s. fl_exp (fl_sub s (fl_maximum row))) row
           in map (\<lambda>e. fl_div e (fl_sum es)) es)"

definition project_heads_fl ::
    "Linear \<Rightarrow> nat \<Rightarrow> nat \<Rightarrow> ftensor3 tensor \<Rightarrow> error + fl list list list list" where
  "project_heads_fl W h k x =
     bind_err (Linear_forward_fl W x) (\<lambda>y.
       if prod_list (shape y) = prod_list (butlast (shape y)) * h * k
       then Inr (map (map (view_last h k)) (vals y))
       else Inl ShapeMismatch)"

definition fold_heads_fl :: "nat \<Rightarrow> fl list list list list \<Rightarrow> ftensor3" where
  "fold_heads_fl h y = concat (map (transpose_n h) y)"

definition raw_weights_fl :: "nat \<Rightarrow> nat \<Rightarrow> ftensor3 \<Rightarrow> ftensor3 \<Rightarrow> ftensor3" where
  "raw_weights_fl t k queries keys =
     map (map (map (\<lambda>s. fl_div s (Fin (sqrt (real k))))))
       (bmm_fl k t queries (map (transpose_n k) keys))"

definition unfold_heads_fl :: "nat \<Rightarrow> nat \<Rightarrow> nat \<Rightarrow> ftensor3 \<Rightarrow> ftensor3" where
  "unfold_heads_fl b h t out = map (map concat) (map (transpose_n t) (view_last b h out))"

definition sa_qkv_fl ::
    "SelfAttention \<Rightarrow> ftensor3 tensor \<Rightarrow> error + ftensor3 \<times> ftensor3 \<times> ftensor3" where
  "sa_qkv_fl P x =
     (case shape x of
        [b, t, k] \<Rightarrow>
          bind_err (project_heads_fl (Wq P) (sa_h P) k x) (\<lambda>queries.
          bind_err (project_heads_fl (Wk P) (sa_h P) k x) (\<lambda>keys.
          bind_err (project_heads_fl (Wv P) (sa_h P) k x) (\<lambda>values.
            Inr (fold_heads_fl (sa_h P) queries, fold_heads_fl (sa_h P) keys,
                 fold_heads_fl (sa_h P) values))))
      | _ \<Rightarrow> Inl ShapeMismatch)"

definition sa_w_prime_fl :: "SelfAttention \<Rightarrow> ftensor3 tensor \<Rightarrow> error + ftensor3" where
  "sa_w_prime_fl P x =
     bind_err (sa_qkv_fl P x) (\<lambda>(queries, keys, values).
       Inr (raw_weights_fl (shape x ! 1) (shape x ! 2) queries keys))"

definition sa_w_fl :: "SelfAttention \<Rightarrow> ftensor3 tensor \<Rightarrow> error + ftensor3" where
  "sa_w_fl P x = bind_err (sa_w_prime_fl P x) (\<lambda>w_prime. Inr (map (map softmax_fl) w_prime))"

definition SelfAttention_forward_fl ::
    "SelfAttention \<Rightarrow> ftensor3 tensor \<Rightarrow> error + ftensor3 tensor" where
  "SelfAttention_forward_fl P x =
     (case shape x of
        [b, t, k] \<Rightarrow>
          bind_err (sa_qkv_fl P x) (\<lambda>(queries, keys, values).
          bind_err (sa_w_fl P x) (\<lambda>w.
            let out = bmm_fl t k w values;
                out = unfold_heads_fl b (sa_h P) t out
            in Linear_forward_fl (unifyheads P) \<lparr>shape = [b, t, sa_h P * k], vals = out\<rparr>))
      | _ \<Rightarrow> Inl ShapeMismatch)"










text \<open>The \<open>h\<close> head matrices of one example, on float32 values.\<close>

definition heads_of_fl :: "Linear \<Rightarrow> nat \<Rightarrow> nat \<Rightarrow> fmat \<Rightarrow> ftensor3" where
  "heads_of_fl W h k e = transpose_n h (map (\<lambda>v. view_last h k (Linear_vec_fl W v)) e)"

section \<open>A small instance\<close>

text \<open>
  A self-attention module with embedding dimension 1 and two heads, a block and a
  classifier around it, and inputs with one example of two positions.  The instances of
  the theorems at these values show that their hypotheses can be met.
\<close>

definition demo_sa :: SelfAttention where
  "demo_sa =
     \<lparr>sa_k = 1, sa_h = 2,
      Wq = \<lparr>in_features = 1, out_features = 2, weight = [[1], [2]], bias = None\<rparr>,
      Wk = \<lparr>in_features = 1, out_features = 2, weight = [[1], [1]], bias = None\<rparr>,
      Wv = \<lparr>in_features = 1, out_features = 2, weight = [[1], [3]], bias = None\<rparr>,
      unifyheads = \<lparr>in_features = 2, out_features = 1, weight = [[1, 1]], bias = Some [0]\<rparr>\<rparr>"

definition demo_x :: "tensor3 tensor" where
  "demo_x = \<lparr>shape = [1, 2, 1], vals = [[[0], [1]]]\<rparr>"

definition demo_norm :: LayerNorm where
  "demo_norm = \<lparr>normalized_shape = 1, ln_weight = [1], ln_bias = [0], eps = 1 / 100000\<rparr>"

definition demo_block :: TransformerBlock where
  "demo_block =
     \<lparr>attention = demo_sa, norm1 = demo_norm, norm2 = demo_norm,
      ff0 = \<lparr>in_features = 1, out_features = 4, weight = [[1], [-1], [2], [0]],
             bias = Some [0, 0, 1, 0]\<rparr>,
      ff2 = \<lparr>in_features = 4, out_features = 1, weight = [[1, 1, 0, 1]], bias = Some [0]\<rparr>\<rparr>"

definition demo_model :: TextClassificationTransformer where
  "demo_model =
     \<lparr>num_tokens = 3,
      token_emb = \<lparr>num_embeddings = 3, embedding_dim = 1, emb_weight = [[0], [1], [2]]\<rparr>,
      pos_emb = \<lparr>num_embeddings = 2, embedding_dim = 1, emb_weight = [[0], [1]]\<rparr>,
      transformer_blocks = [demo_block],
      classification = \<lparr>in_features = 1, out_features = 2, weight = [[1], [-1]],
                        bias = Some [0, 0]\<rparr>\<rparr>"

definition demo_ids :: "int list list tensor" where
  "demo_ids = \<lparr>shape = [1, 2], vals = [[0, 2]]\<rparr>"

definition demo_ids_bad :: "int list list tensor" where
  "demo_ids_bad = \<lparr>shape = [1, 2], vals = [[0, 3]]\<rparr>"

definition demo_x2 :: "tensor3 tensor" where
  "demo_x2 = \<lparr>shape = [2, 2, 1], vals = [[[0], [1]], [[2], [3]]]\<rparr>"

definition demo_ids2 :: "int list list tensor" where
  "demo_ids2 = \<lparr>shape = [2, 2], vals = [[0, 2], [1, 1]]\<rparr>"

text \<open>Float32 inputs: two within the range of the products, two whose products overflow.\<close>

definition demo_fx :: "ftensor3 tensor" where
  "demo_fx = \<lparr>shape = [1, 2, 1], vals = [[[Fin 0], [Fin 1]]]\<rparr>"

definition demo_fx1 :: "ftensor3 tensor" where
  "demo_fx1 = \<lparr>shape = [1, 1, 1], vals = [[[Fin 2]]]\<rparr>"

definition demo_big :: "ftensor3 tensor" where
  "demo_big = \<lparr>shape = [1, 2, 1], vals = [[[Fin (10 ^ 20)], [Fin (10 ^ 20)]]]\<rparr>"

definition demo_big1 :: "ftensor3 tensor" where
  "demo_big1 = \<lparr>shape = [1, 1, 1], vals = [[[Fin (10 ^ 20)]]]\<rparr>"


section \<open>Auxiliary facts\<close>

lemma bind_err_simps [simp]:
  "bind_err (Inr v) f = f v" "bind_err (Inl e) f = Inl e"
  by (simp_all add: bind_err_def)

lemma view_last_concat:
  "\<forall>e\<in>set xs. length e = h \<Longrightarrow> view_last (length xs) h (concat xs) = xs"
proof (induction xs)
  case Nil
  then show ?case by (simp add: view_last_def)
next
  case (Cons a xs)
  have "view_last (Suc (length xs)) h (a @ concat xs) = a # view_last (length xs) h (concat xs)"
    using Cons.prems unfolding view_last_def
    by (simp add: map_upt_Suc del: upt_Suc)
  then show ?case using Cons by simp
qed

lemma map2_concat:
  "\<forall>e\<in>set X. length (F e) = length (G e) \<Longrightarrow>
   map2 f (concat (map F X)) (concat (map G X)) = concat (map (\<lambda>e. map2 f (F e) (G e)) X)"
  by (induction X) auto

lemma length_heads_of [simp]: "length (heads_of W h k e) = h"
  by (simp add: heads_of_def transpose_n_def)

lemma heads_of_rows: "m \<in> set (heads_of W h k e) \<Longrightarrow> length m = length e"
  by (auto simp: heads_of_def transpose_n_def)

lemma project_heads_ok:
  "in_features W = k \<Longrightarrow> out_features W = k * h \<Longrightarrow>
   project_heads W h k \<lparr>shape = [b, t, k], vals = X\<rparr>
     = Inr (map (map (\<lambda>v. view_last h k (Linear_vec W v))) X)"
  by (simp add: project_heads_def Linear_forward_def)

lemma fold_heads_eq:
  "fold_heads h (map (map (\<lambda>v. view_last h k (Linear_vec W v))) X)
     = concat (map (heads_of W h k) X)"
  by (simp add: fold_heads_def heads_of_def[abs_def] comp_def)

lemma sa_qkv_ok:
  assumes "wf_SelfAttention P" "k = sa_k P"
  shows "sa_qkv P \<lparr>shape = [b, t, k], vals = X\<rparr>
     = Inr (concat (map (heads_of (Wq P) (sa_h P) k) X),
            concat (map (heads_of (Wk P) (sa_h P) k) X),
            concat (map (heads_of (Wv P) (sa_h P) k) X))"
  using assms
  by (simp add: sa_qkv_def wf_SelfAttention_def project_heads_ok fold_heads_eq)

lemma map_index_eq: "map (\<lambda>j. f (c ! j)) [0..<length c] = map f c"
  by (rule nth_equalityI) auto

lemma matmul_transpose:
  assumes "length c = t"
  shows "map (map (\<lambda>s. s / sqrt (real k))) (matmul k t q (transpose_n k c)) = head_scores k q c"
proof -
  have a: "(\<Sum>d\<leftarrow>[0..<k]. row ! d * transpose_n k c ! d ! j) = (\<Sum>d\<leftarrow>[0..<k]. row ! d * c ! j ! d)"
    if "j < t" for row j
    using that assms
    by (intro arg_cong[where f = sum_list] map_cong refl) (simp add: transpose_n_def)
  have "map (\<lambda>j. (\<Sum>d\<leftarrow>[0..<k]. row ! d * transpose_n k c ! d ! j) / sqrt (real k)) [0..<t]
     = map (\<lambda>cj. (\<Sum>d\<leftarrow>[0..<k]. row ! d * cj ! d) / sqrt (real k)) c" for row
  proof -
    have "map (\<lambda>j. (\<Sum>d\<leftarrow>[0..<k]. row ! d * transpose_n k c ! d ! j) / sqrt (real k)) [0..<t]
      = map (\<lambda>j. (\<Sum>d\<leftarrow>[0..<k]. row ! d * c ! j ! d) / sqrt (real k)) [0..<length c]"
      using a assms by simp
    also have "\<dots> = map (\<lambda>cj. (\<Sum>d\<leftarrow>[0..<k]. row ! d * cj ! d) / sqrt (real k)) c"
      by (rule map_index_eq)
    finally show ?thesis .
  qed
  then show ?thesis
    by (simp add: matmul_def head_scores_def comp_def)
qed

lemma raw_weights_concat:
  assumes "\<forall>e\<in>set X. length (Fq e) = length (Fk e)"
    and "\<forall>e\<in>set X. \<forall>c\<in>set (Fk e). length c = t"
  shows "raw_weights t k (concat (map Fq X)) (concat (map Fk X))
     = concat (map (\<lambda>e. map2 (head_scores k) (Fq e) (Fk e)) X)"
  using assms
proof (induction X)
  case Nil
  then show ?case by (simp add: raw_weights_def bmm_def)
next
  case (Cons e X)
  have one: "map (map (map (\<lambda>s. s / sqrt (real k)))) (map2 (matmul k t) q (map (transpose_n k) c))
      = map2 (head_scores k) q c" if "\<forall>m\<in>set c. length m = t" for q c
    using that
  proof (induction c arbitrary: q)
    case Nil
    then show ?case by simp
  next
    case (Cons a c)
    then show ?case by (cases q) (simp_all add: matmul_transpose)
  qed
  have "raw_weights t k (concat (map Fq (e # X))) (concat (map Fk (e # X)))
     = map (map (map (\<lambda>s. s / sqrt (real k)))) (map2 (matmul k t) (Fq e) (map (transpose_n k) (Fk e)))
       @ raw_weights t k (concat (map Fq X)) (concat (map Fk X))"
    using Cons.prems by (simp add: raw_weights_def bmm_def)
  then show ?case using Cons one[of "Fk e" "Fq e"] by simp
qed


lemma map2_attend:
  "map2 (matmul t k) (map (map softmax) (map2 (head_scores k) q c)) v
     = map (attend t k) (zip q (zip c v))"
proof (induction q arbitrary: c v)
  case Nil
  then show ?case by simp
next
  case (Cons a q)
  then show ?case by (cases c; cases v) (simp_all add: attend_def)
qed

lemma sa_w_prime_ok:
  assumes "wf_SelfAttention P" "k = sa_k P" "has_shape3 b t k X"
  shows "sa_w_prime P \<lparr>shape = [b, t, k], vals = X\<rparr>
     = Inr (concat (map (\<lambda>e. map2 (head_scores k) (heads_of (Wq P) (sa_h P) k e)
                                  (heads_of (Wk P) (sa_h P) k e)) X))"
proof -
  have "\<forall>e\<in>set X. \<forall>c\<in>set (heads_of (Wk P) (sa_h P) k e). length c = t"
    using assms(3) by (auto simp: has_shape3_def has_shape2_def dest: heads_of_rows)
  then show ?thesis
    using assms(1,2) by (simp add: sa_w_prime_def sa_qkv_ok raw_weights_concat)
qed

lemma sa_w_ok:
  assumes "wf_SelfAttention P" "k = sa_k P" "has_shape3 b t k X"
  shows "sa_w P \<lparr>shape = [b, t, k], vals = X\<rparr> = Inr (concat (map (weights_example P k) X))"
  using assms
  by (simp add: sa_w_def sa_w_prime_ok map_concat comp_def weights_example_def[abs_def])

lemma SelfAttention_forward_ok:
  assumes "wf_SelfAttention P" "k = sa_k P" "has_shape3 b t k X"
  shows "SelfAttention_forward P \<lparr>shape = [b, t, k], vals = X\<rparr>
     = Inr \<lparr>shape = [b, t, k], vals = map (sa_example P t k) X\<rparr>"
proof -
  let ?G = "\<lambda>e. map (attend t k) (zip (heads_of (Wq P) (sa_h P) k e)
               (zip (heads_of (Wk P) (sa_h P) k e) (heads_of (Wv P) (sa_h P) k e)))"
  have out: "bmm t k (concat (map (weights_example P k) X))
                 (concat (map (heads_of (Wv P) (sa_h P) k) X)) = concat (map ?G X)"
  proof -
    have pe: "map2 (matmul t k) (weights_example P k e) (heads_of (Wv P) (sa_h P) k e) = ?G e" for e
      unfolding weights_example_def by (rule map2_attend)
    have "\<forall>e\<in>set X. length (weights_example P k e) = length (heads_of (Wv P) (sa_h P) k e)"
      by (simp add: weights_example_def)
    then show ?thesis
      unfolding bmm_def by (simp only: map2_concat pe)
  qed
  have len: "\<forall>e\<in>set (map ?G X). length e = sa_h P"
    by simp
  have "view_last b (sa_h P) (concat (map ?G X)) = map ?G X"
    using view_last_concat[OF len] assms(3) by (simp add: has_shape3_def)
  then have unf: "unfold_heads b (sa_h P) t (concat (map ?G X))
       = map (\<lambda>e. map concat (transpose_n t (?G e))) X"
    by (simp add: unfold_heads_def)
  have feats: "in_features (unifyheads P) = sa_h P * k" "out_features (unifyheads P) = k"
    using assms(1,2) by (simp_all add: wf_SelfAttention_def)
  show ?thesis
    by (simp add: SelfAttention_forward_def sa_qkv_ok[OF assms(1,2)] sa_w_ok[OF assms] out unf
        Let_def Linear_forward_def feats sa_example_def[abs_def] comp_def)
qed


lemma sum_list_exp_pos: "row \<noteq> [] \<Longrightarrow> 0 < (\<Sum>u\<leftarrow>row. exp (u::real))"
proof -
  have nn: "0 \<le> (\<Sum>u\<leftarrow>xs. exp (u::real))" for xs
    by (rule sum_list_nonneg) auto
  assume "row \<noteq> []"
  then obtain a xs where "row = a # xs" by (cases row) auto
  then show ?thesis using nn[of xs] by (simp add: add_pos_nonneg)
qed

lemma softmax_stable: "softmax row = stable_softmax row"
proof (cases "row = []")
  case True
  then show ?thesis by (simp add: softmax_def stable_softmax_def)
next
  case False
  define m where "m = Max (set row)"
  have s: "(\<Sum>u\<leftarrow>row. exp (u - m)) = (\<Sum>u\<leftarrow>row. exp u) / exp m"
    by (simp add: exp_diff divide_inverse sum_list_mult_const)
  have "exp (s - m) / (\<Sum>u\<leftarrow>row. exp (u - m)) = exp s / (\<Sum>u\<leftarrow>row. exp u)" for s
    unfolding s by (simp add: exp_diff)
  then show ?thesis using False
    by (simp add: softmax_def stable_softmax_def m_def)
qed

lemma length_softmax [simp]: "length (softmax row) = length row"
  by (simp add: softmax_def)

lemma heads_of_shape:
  assumes "out_features W = k * h" "length e = t"
  shows "has_shape3 h t k (heads_of W h k e)"
proof -
  have "length (take k (drop (i * k) (Linear_vec W v))) = k" if "i < h" for i v
  proof -
    have "Suc i * k \<le> h * k" using that by (intro mult_le_mono1) simp
    then show ?thesis using assms(1) by (simp add: Linear_vec_def mult.commute)
  qed
  then show ?thesis using assms(2)
    by (auto simp: has_shape3_def has_shape2_def heads_of_def transpose_n_def view_last_def)
qed

lemma concat_shape:
  "\<forall>e\<in>set X. has_shape3 h t k (F e) \<Longrightarrow> has_shape3 (length X * h) t k (concat (map F X))"
  by (induction X) (auto simp: has_shape3_def)

lemma head_scores_shape:
  "length q = t \<Longrightarrow> length c = t \<Longrightarrow> has_shape2 t t (head_scores k q c)"
  by (auto simp: has_shape2_def head_scores_def)

lemma scores_example_shape:
  assumes "has_shape3 h t k Q" "has_shape3 h t k C"
  shows "has_shape3 h t t (map2 (head_scores k) Q C)"
proof -
  have "has_shape2 t t (head_scores k q c)" if "(q, c) \<in> set (zip Q C)" for q c
  proof -
    have "q \<in> set Q" "c \<in> set C"
      using that by (auto dest: set_zip_leftD set_zip_rightD)
    then show ?thesis
      using assms by (intro head_scores_shape) (auto simp: has_shape3_def has_shape2_def)
  qed
  then show ?thesis
    using assms by (auto simp: has_shape3_def)
qed

lemma demo_sa_wf: "wf_SelfAttention demo_sa"
  by (simp add: demo_sa_def wf_SelfAttention_def wf_Linear_def has_shape2_def)

lemma demo_x_shape: "shape demo_x = [1, 2, 1]" "has_shape3 1 2 1 (vals demo_x)"
  by (simp_all add: demo_x_def has_shape3_def has_shape2_def)

lemma demo_sa_k: "1 = sa_k demo_sa"
  by (simp add: demo_sa_def)

lemma sa_scores_and_weights:
  assumes "wf_SelfAttention P" and "k = sa_k P"
    and "shape x = [b, t, k]" and "has_shape3 b t k (vals x)"
  shows "\<exists>queries keys values.
           sa_qkv P x = Inr (queries, keys, values) \<and>
           has_shape3 (b * sa_h P) t k queries \<and> has_shape3 (b * sa_h P) t k keys \<and>
           sa_w_prime P x = Inr (scaled_scores k queries keys) \<and>
           has_shape3 (b * sa_h P) t t (scaled_scores k queries keys) \<and>
           sa_w P x = Inr (map (map softmax) (scaled_scores k queries keys))"
proof -
  let ?X = "vals x" and ?h = "sa_h P"
  let ?Q = "concat (map (heads_of (Wq P) ?h k) ?X)"
  let ?K = "concat (map (heads_of (Wk P) ?h k) ?X)"
  let ?V = "concat (map (heads_of (Wv P) ?h k) ?X)"
  have x: "x = \<lparr>shape = [b, t, k], vals = ?X\<rparr>"
    using assms(3) by simp
  have len: "length ?X = b" and rows: "\<forall>e\<in>set ?X. length e = t"
    using assms(4) by (auto simp: has_shape3_def has_shape2_def)
  have outs: "out_features (Wq P) = k * ?h" "out_features (Wk P) = k * ?h"
    using assms(1,2) by (simp_all add: wf_SelfAttention_def)
  have qkv: "sa_qkv P x = Inr (?Q, ?K, ?V)"
    by (subst x) (rule sa_qkv_ok[OF assms(1,2)])
  have shQ: "has_shape3 (b * ?h) t k ?Q"
    using concat_shape[of ?X ?h t k "heads_of (Wq P) ?h k"] rows len
    by (simp add: heads_of_shape[OF outs(1)])
  have shK: "has_shape3 (b * ?h) t k ?K"
    using concat_shape[of ?X ?h t k "heads_of (Wk P) ?h k"] rows len
    by (simp add: heads_of_shape[OF outs(2)])
  have sc: "scaled_scores k ?Q ?K
      = concat (map (\<lambda>e. map2 (head_scores k) (heads_of (Wq P) ?h k e) (heads_of (Wk P) ?h k e)) ?X)"
    unfolding scaled_scores_def by (rule map2_concat) simp
  have wp: "sa_w_prime P x = Inr (scaled_scores k ?Q ?K)"
    by (subst x) (simp only: sa_w_prime_ok[OF assms(1,2,4)] sc)
  have w: "sa_w P x = Inr (map (map softmax) (scaled_scores k ?Q ?K))"
    by (simp add: sa_w_def wp)
  have "has_shape3 (b * ?h) t t (scaled_scores k ?Q ?K)"
    unfolding scaled_scores_def by (rule scores_example_shape[OF shQ shK])
  then show ?thesis using qkv shQ shK wp w by blast
qed

section \<open>Attention scores and attention weights\<close>

text \<open>
  Claim C1.  For a well-formed module and an input of shape \<open>[b, t, k]\<close>, the raw weights
  of \<open>SelfAttention.forward\<close> are, for each element of the folded batch of \<open>b * h\<close> head
  matrices, the products of queries and keys divided by \<open>sqrt k\<close>, of shape
  \<open>[b * h, t, t]\<close>; and the attention weights are the numerically stable softmax (the
  row maximum subtracted before exponentiating) of each row of these scores.
\<close>

theorem sa_weights_stable_softmax:
  assumes "wf_SelfAttention P" and "k = sa_k P"
    and "shape x = [b, t, k]" and "has_shape3 b t k (vals x)"
  shows "\<exists>queries keys values.
           sa_qkv P x = Inr (queries, keys, values) \<and>
           has_shape3 (b * sa_h P) t k queries \<and> has_shape3 (b * sa_h P) t k keys \<and>
           sa_w_prime P x = Inr (scaled_scores k queries keys) \<and>
           has_shape3 (b * sa_h P) t t (scaled_scores k queries keys) \<and>
           sa_w P x = Inr (map (map stable_softmax) (scaled_scores k queries keys))"
proof -
  have "softmax = stable_softmax"
    by (rule ext) (rule softmax_stable)
  then show ?thesis
    using sa_scores_and_weights[OF assms] by simp
qed

theorem sa_weights_stable_softmax_witness:
  "wf_SelfAttention demo_sa \<and> 1 = sa_k demo_sa \<and> shape demo_x = [1, 2, 1] \<and>
   has_shape3 1 2 1 (vals demo_x) \<and>
   (\<exists>queries keys values.
      sa_qkv demo_sa demo_x = Inr (queries, keys, values) \<and>
      has_shape3 (1 * sa_h demo_sa) 2 1 queries \<and> has_shape3 (1 * sa_h demo_sa) 2 1 keys \<and>
      sa_w_prime demo_sa demo_x = Inr (scaled_scores 1 queries keys) \<and>
      has_shape3 (1 * sa_h demo_sa) 2 2 (scaled_scores 1 queries keys) \<and>
      sa_w demo_sa demo_x = Inr (map (map stable_softmax) (scaled_scores 1 queries keys)))"
  using sa_weights_stable_softmax[OF demo_sa_wf demo_sa_k demo_x_shape]
    demo_sa_wf demo_sa_k demo_x_shape
  by (intro conjI)

lemma demo_block_wf: "wf_TransformerBlock demo_block"
  using demo_sa_wf
  by (simp add: demo_block_def demo_norm_def wf_TransformerBlock_def wf_LayerNorm_def
      wf_Linear_def has_shape2_def blk_k_def demo_sa_def)

section \<open>The transformer block\<close>

lemma map2_same: "map2 f (map F X) (map G X) = map (\<lambda>e. f (F e) (G e)) X"
  by (induction X) auto

lemma has_shape2_map2:
  "has_shape2 t k a \<Longrightarrow> has_shape2 t k c \<Longrightarrow> has_shape2 t k (add_mat a c)"
proof -
  assume a: "has_shape2 t k a" and c: "has_shape2 t k c"
  have "length (map2 (+) r u) = k" if "(r, u) \<in> set (zip a c)" for r u
  proof -
    have "r \<in> set a" "u \<in> set c"
      using that by (auto dest: set_zip_leftD set_zip_rightD)
    then show ?thesis using a c by (simp add: has_shape2_def)
  qed
  then show ?thesis
    using a c by (auto simp: has_shape2_def add_mat_def)
qed

lemma length_add_mat [simp]: "length (add_mat a c) = min (length a) (length c)"
  by (simp add: add_mat_def)

lemma length_sa_example [simp]: "length (sa_example P t k e) = t"
  by (simp add: sa_example_def transpose_n_def)

lemma length_Linear_vec [simp]: "length (Linear_vec L v) = out_features L"
  by (simp add: Linear_vec_def)

lemma length_LayerNorm_vec [simp]: "length (LayerNorm_vec N v) = normalized_shape N"
  by (simp add: LayerNorm_vec_def)

lemma tensor_add_ok:
  "tensor_add \<lparr>shape = s, vals = map F X\<rparr> \<lparr>shape = s, vals = map G X\<rparr>
     = Inr \<lparr>shape = s, vals = map (\<lambda>e. add_mat (F e) (G e)) X\<rparr>"
  by (simp add: tensor_add_def map2_same add_mat_def)

lemma LayerNorm_forward_ok:
  "normalized_shape N = k \<Longrightarrow>
   LayerNorm_forward N \<lparr>shape = [b, t, k], vals = map F X\<rparr>
     = Inr \<lparr>shape = [b, t, k], vals = map (\<lambda>e. map (LayerNorm_vec N) (F e)) X\<rparr>"
  by (simp add: LayerNorm_forward_def)

lemma length_x1_example [simp]: "length (x1_example t k B e) = min t (length e)"
  by (simp add: x1_example_def)

lemma length_ff_example [simp]: "length (ff_example B e) = length e"
  by (simp add: ff_example_def)

lemma block_example_alt:
  "block_example t k B e
     = map (LayerNorm_vec (norm2 B)) (add_mat (ff_example B (x1_example t k B e)) (x1_example t k B e))"
  by (simp add: block_example_def Let_def)

lemma ff_ok:
  "in_features (ff0 B) = k \<Longrightarrow> in_features (ff2 B) = out_features (ff0 B) \<Longrightarrow>
   out_features (ff2 B) = k \<Longrightarrow>
   ff B \<lparr>shape = [b, t, k], vals = map F X\<rparr>
     = Inr \<lparr>shape = [b, t, k], vals = map (\<lambda>e. ff_example B (F e)) X\<rparr>"
  by (simp add: ff_def Linear_forward_def ReLU_def ff_example_def comp_def)

lemma block_steps:
  assumes "wf_TransformerBlock B" and "k = blk_k B" and "has_shape3 b t k X"
  defines "x \<equiv> \<lparr>shape = [b, t, k], vals = X\<rparr>"
  defines "a \<equiv> \<lparr>shape = [b, t, k], vals = map (sa_example (attention B) t k) X\<rparr>"
  defines "s1 \<equiv> \<lparr>shape = [b, t, k], vals = map (\<lambda>e. add_mat (sa_example (attention B) t k e) e) X\<rparr>"
  defines "x1 \<equiv> \<lparr>shape = [b, t, k], vals = map (x1_example t k B) X\<rparr>"
  defines "f \<equiv> \<lparr>shape = [b, t, k], vals = map (\<lambda>e. ff_example B (x1_example t k B e)) X\<rparr>"
  defines "s2 \<equiv> \<lparr>shape = [b, t, k],
     vals = map (\<lambda>e. add_mat (ff_example B (x1_example t k B e)) (x1_example t k B e)) X\<rparr>"
  defines "y \<equiv> \<lparr>shape = [b, t, k], vals = map (block_example t k B) X\<rparr>"
  shows "SelfAttention_forward (attention B) x = Inr a"
    and "tensor_add a x = Inr s1"
    and "LayerNorm_forward (norm1 B) s1 = Inr x1"
    and "ff B x1 = Inr f"
    and "tensor_add f x1 = Inr s2"
    and "LayerNorm_forward (norm2 B) s2 = Inr y"
    and "TransformerBlock_forward B x = Inr y"
    and "has_shape3 b t k (vals y)"
proof -
  have wf: "wf_SelfAttention (attention B)" "k = sa_k (attention B)"
    "normalized_shape (norm1 B) = k" "normalized_shape (norm2 B) = k"
    "in_features (ff0 B) = k" "in_features (ff2 B) = out_features (ff0 B)" "out_features (ff2 B) = k"
    using assms(1,2) by (simp_all add: wf_TransformerBlock_def blk_k_def)
  show 1: "SelfAttention_forward (attention B) x = Inr a"
    unfolding x_def a_def by (rule SelfAttention_forward_ok[OF wf(1,2) assms(3)])
  show 2: "tensor_add a x = Inr s1"
    unfolding x_def a_def s1_def using tensor_add_ok[of "[b, t, k]" _ X "\<lambda>e. e"] by simp
  show 3: "LayerNorm_forward (norm1 B) s1 = Inr x1"
    unfolding s1_def x1_def by (simp add: LayerNorm_forward_ok[OF wf(3)] x1_example_def)
  show 4: "ff B x1 = Inr f"
    unfolding x1_def f_def by (rule ff_ok[OF wf(5,6,7)])
  show 5: "tensor_add f x1 = Inr s2"
    unfolding x1_def f_def s2_def by (rule tensor_add_ok)
  show 6: "LayerNorm_forward (norm2 B) s2 = Inr y"
    unfolding s2_def y_def by (simp add: LayerNorm_forward_ok[OF wf(4)] block_example_alt)
  show "TransformerBlock_forward B x = Inr y"
    by (simp add: TransformerBlock_forward_def 1 2 3 4 5 6)
  have "has_shape2 t k (block_example t k B e)" if "e \<in> set X" for e
  proof -
    have "length e = t" using that assms(3) by (simp add: has_shape3_def has_shape2_def)
    then show ?thesis
      using wf(4) by (auto simp: has_shape2_def block_example_alt)
  qed
  then show "has_shape3 b t k (vals y)"
    unfolding y_def using assms(3) by (simp add: has_shape3_def)
qed


lemma demo_block_k: "1 = blk_k demo_block"
  by (simp add: blk_k_def demo_block_def demo_sa_def)

text \<open>
  Claim C2.  For a well-formed block and an input \<open>x\<close> of shape \<open>[b, t, k]\<close>,
  \<open>TransformerBlock.forward\<close> returns \<open>norm2 (f + x1)\<close> where
  \<open>x1 = norm1 (attention x + x)\<close> and \<open>f = ff x1\<close>: in both sublayers the residual sum is
  formed first and then normalised.  Every step succeeds, and the result has the shape
  \<open>[b, t, k]\<close> of the input.
\<close>

theorem TransformerBlock_forward_add_then_norm:
  assumes "wf_TransformerBlock B" and "k = blk_k B"
    and "shape x = [b, t, k]" and "has_shape3 b t k (vals x)"
  shows "\<exists>a s1 x1 f s2 y.
           SelfAttention_forward (attention B) x = Inr a \<and> tensor_add a x = Inr s1 \<and>
           LayerNorm_forward (norm1 B) s1 = Inr x1 \<and>
           ff B x1 = Inr f \<and> tensor_add f x1 = Inr s2 \<and>
           LayerNorm_forward (norm2 B) s2 = Inr y \<and>
           TransformerBlock_forward B x = Inr y \<and>
           shape y = [b, t, k] \<and> has_shape3 b t k (vals y)"
proof -
  have x: "x = \<lparr>shape = [b, t, k], vals = vals x\<rparr>"
    using assms(3) by simp
  note st = block_steps[OF assms(1,2,4), folded x]
  show ?thesis
    apply (intro exI conjI)
            apply (rule st(1))
           apply (rule st(2))
          apply (rule st(3))
         apply (rule st(4))
        apply (rule st(5))
       apply (rule st(6))
      apply (rule st(7))
     apply simp
    apply (rule st(8))
    done
qed

theorem TransformerBlock_forward_add_then_norm_witness:
  "wf_TransformerBlock demo_block \<and> 1 = blk_k demo_block \<and> shape demo_x = [1, 2, 1] \<and>
   has_shape3 1 2 1 (vals demo_x) \<and>
   (\<exists>a s1 x1 f s2 y.
      SelfAttention_forward (attention demo_block) demo_x = Inr a \<and>
      tensor_add a demo_x = Inr s1 \<and>
      LayerNorm_forward (norm1 demo_block) s1 = Inr x1 \<and>
      ff demo_block x1 = Inr f \<and> tensor_add f x1 = Inr s2 \<and>
      LayerNorm_forward (norm2 demo_block) s2 = Inr y \<and>
      TransformerBlock_forward demo_block demo_x = Inr y \<and>
      shape y = [1, 2, 1] \<and> has_shape3 1 2 1 (vals y))"
  using TransformerBlock_forward_add_then_norm[OF demo_block_wf demo_block_k demo_x_shape]
    demo_block_wf demo_block_k demo_x_shape
  by (intro conjI)

section \<open>The classifier\<close>

lemma mapM_err_Inr:
  "\<forall>a\<in>set xs. f a = Inr (g a) \<Longrightarrow> mapM_err f xs = Inr (map g xs)"
  by (induction xs) auto

lemma mapM_err_Inl:
  assumes "\<forall>a\<in>set xs. f a = Inl E \<or> (\<exists>v. f a = Inr v)" and "\<exists>a\<in>set xs. f a = Inl E"
  shows "mapM_err f xs = Inl E"
  using assms
proof (induction xs)
  case Nil
  then show ?case by simp
next
  case (Cons a xs)
  show ?case
  proof (cases "f a")
    case (Inl e)
    then show ?thesis using Cons.prems(1) by auto
  next
    case (Inr v)
    then have "\<exists>a\<in>set xs. f a = Inl E" using Cons.prems(2) by auto
    then have "mapM_err f xs = Inl E" using Cons by auto
    then show ?thesis using Inr by simp
  qed
qed

lemma mapM_err_cases:
  assumes "\<forall>a\<in>set xs. f a = Inl E \<or> (\<exists>v. f a = Inr v)"
  shows "mapM_err f xs = Inl E \<or> (\<exists>vs. mapM_err f xs = Inr vs)"
  using assms
proof (induction xs)
  case Nil
  then show ?case by simp
next
  case (Cons a xs)
  then show ?case by (cases "f a") auto
qed

lemma Embedding_row_cases: "Embedding_row E i = Inl IndexOutOfRange \<or> (\<exists>v. Embedding_row E i = Inr v)"
  by (simp add: Embedding_row_def)

lemma Embedding_forward2_fail:
  assumes "\<exists>row\<in>set (vals x). \<exists>i\<in>set row. i < 0 \<or> int (num_embeddings E) \<le> i"
  shows "Embedding_forward2 E x = Inl IndexOutOfRange"
proof -
  obtain row i where ri: "row \<in> set (vals x)" "i \<in> set row" "i < 0 \<or> int (num_embeddings E) \<le> i"
    using assms by blast
  have "Embedding_row E i = Inl IndexOutOfRange"
    using ri(3) by (auto simp: Embedding_row_def)
  then have "mapM_err (Embedding_row E) row = Inl IndexOutOfRange"
    using ri(2) Embedding_row_cases by (intro mapM_err_Inl) auto
  moreover have "\<forall>r\<in>set (vals x). mapM_err (Embedding_row E) r = Inl IndexOutOfRange
      \<or> (\<exists>v. mapM_err (Embedding_row E) r = Inr v)"
    using mapM_err_cases[of _ "Embedding_row E" IndexOutOfRange] Embedding_row_cases by blast
  ultimately have "mapM_err (mapM_err (Embedding_row E)) (vals x) = Inl IndexOutOfRange"
    using ri(1) by (intro mapM_err_Inl) auto
  then show ?thesis by (simp add: Embedding_forward2_def)
qed

lemma Embedding_forward2_cases:
  "Embedding_forward2 E x = Inl IndexOutOfRange \<or>
   (\<exists>rows. Embedding_forward2 E x = Inr \<lparr>shape = shape x @ [embedding_dim E], vals = rows\<rparr>)"
proof -
  have "\<forall>r\<in>set (vals x). mapM_err (Embedding_row E) r = Inl IndexOutOfRange
      \<or> (\<exists>v. mapM_err (Embedding_row E) r = Inr v)"
    using mapM_err_cases[of _ "Embedding_row E" IndexOutOfRange] Embedding_row_cases by blast
  from mapM_err_cases[OF this] show ?thesis
    by (auto simp: Embedding_forward2_def)
qed

lemma positions_fail:
  assumes "num_embeddings E < t"
  shows "Embedding_forward1 E (arange t) = Inl IndexOutOfRange"
proof -
  have "int (num_embeddings E) \<in> set (map int [0..<t])"
    using assms by auto
  moreover have "Embedding_row E (int (num_embeddings E)) = Inl IndexOutOfRange"
    by (simp add: Embedding_row_def)
  ultimately have "mapM_err (Embedding_row E) (map int [0..<t]) = Inl IndexOutOfRange"
    using Embedding_row_cases by (intro mapM_err_Inl) blast+
  then show ?thesis by (simp add: Embedding_forward1_def arange_def)
qed

lemma Sequential_forward_ok:
  assumes "\<forall>B\<in>set Bs. wf_TransformerBlock B \<and> blk_k B = k" and "has_shape3 b t k X"
  shows "Sequential_forward Bs \<lparr>shape = [b, t, k], vals = X\<rparr>
           = Inr \<lparr>shape = [b, t, k], vals = map (blocks_example t k Bs) X\<rparr>
         \<and> has_shape3 b t k (map (blocks_example t k Bs) X)"
  using assms
proof (induction Bs arbitrary: X)
  case Nil
  then show ?case by (simp add: blocks_example_def)
next
  case (Cons B Bs)
  have wf: "wf_TransformerBlock B" "k = blk_k B"
    using Cons.prems(1) by auto
  note st = block_steps[OF wf Cons.prems(2)]
  have "Sequential_forward Bs \<lparr>shape = [b, t, k], vals = map (block_example t k B) X\<rparr>
           = Inr \<lparr>shape = [b, t, k], vals = map (blocks_example t k Bs) (map (block_example t k B) X)\<rparr>
         \<and> has_shape3 b t k (map (blocks_example t k Bs) (map (block_example t k B) X))"
    using Cons.prems(1) st(8) by (intro Cons.IH) simp_all
  moreover have "blocks_example t k Bs (block_example t k B e) = blocks_example t k (B # Bs) e" for e
    by (simp add: blocks_example_def)
  ultimately show ?case
    using st(7) by (simp add: comp_def)
qed

lemma embed_ok:
  assumes "wf_TextClassificationTransformer M" and "in_range_ids M b t x" and "k = model_k M"
  shows "Embedding_forward2 (token_emb M) x
           = Inr \<lparr>shape = [b, t, k], vals = map (map (\<lambda>i. emb_weight (token_emb M) ! nat i)) (vals x)\<rparr>"
    and "Embedding_forward1 (pos_emb M) (arange t)
           = Inr \<lparr>shape = [t, k], vals = map (\<lambda>j. emb_weight (pos_emb M) ! j) [0..<t]\<rparr>"
    and "has_shape3 b t k (map (embed_example M t) (vals x))"
proof -
  have tok: "Embedding_row (token_emb M) i = Inr (emb_weight (token_emb M) ! nat i)"
    if "row \<in> set (vals x)" "i \<in> set row" for row i
    using that assms(1,2)
    by (auto simp: Embedding_row_def in_range_ids_def wf_TextClassificationTransformer_def)
  have "mapM_err (Embedding_row (token_emb M)) row = Inr (map (\<lambda>i. emb_weight (token_emb M) ! nat i) row)"
    if "row \<in> set (vals x)" for row
    using tok[OF that] by (intro mapM_err_Inr) simp
  then have "mapM_err (mapM_err (Embedding_row (token_emb M))) (vals x)
      = Inr (map (map (\<lambda>i. emb_weight (token_emb M) ! nat i)) (vals x))"
    by (intro mapM_err_Inr) simp
  then show "Embedding_forward2 (token_emb M) x
           = Inr \<lparr>shape = [b, t, k], vals = map (map (\<lambda>i. emb_weight (token_emb M) ! nat i)) (vals x)\<rparr>"
    using assms(2,3) by (simp add: Embedding_forward2_def in_range_ids_def model_k_def)
  have "Embedding_row (pos_emb M) i = Inr (emb_weight (pos_emb M) ! nat i)"
    if "i \<in> set (map int [0..<t])" for i
    using that assms(2) by (auto simp: Embedding_row_def in_range_ids_def max_seq_len_def)
  then have "mapM_err (Embedding_row (pos_emb M)) (map int [0..<t])
      = Inr (map (\<lambda>i. emb_weight (pos_emb M) ! nat i) (map int [0..<t]))"
    by (intro mapM_err_Inr) simp
  then show "Embedding_forward1 (pos_emb M) (arange t)
           = Inr \<lparr>shape = [t, k], vals = map (\<lambda>j. emb_weight (pos_emb M) ! j) [0..<t]\<rparr>"
    using assms(1,3)
    by (simp add: Embedding_forward1_def arange_def comp_def wf_TextClassificationTransformer_def)
  have "has_shape2 t k (embed_example M t ids)" if "ids \<in> set (vals x)" for ids
  proof -
    have len: "length ids = t" and rng: "\<forall>i\<in>set ids. 0 \<le> i \<and> i < int (num_tokens M)"
      using that assms(2) by (auto simp: in_range_ids_def has_shape2_def)
    have "has_shape2 t k (map (\<lambda>i. emb_weight (token_emb M) ! nat i) ids)"
      using len rng assms(1,3)
      by (auto simp: has_shape2_def wf_TextClassificationTransformer_def wf_Embedding_def model_k_def)
    moreover have "has_shape2 t k (map (\<lambda>j. emb_weight (pos_emb M) ! j) [0..<t])"
      using assms
      by (auto simp: has_shape2_def wf_TextClassificationTransformer_def wf_Embedding_def
          in_range_ids_def max_seq_len_def)
    ultimately show ?thesis
      unfolding embed_example_def by (rule has_shape2_map2)
  qed
  then show "has_shape3 b t k (map (embed_example M t) (vals x))"
    using assms(2) by (simp add: has_shape3_def in_range_ids_def has_shape2_def)
qed

lemma demo_model_wf: "wf_TextClassificationTransformer demo_model"
  using demo_block_wf demo_block_k
  by (simp add: demo_model_def wf_TextClassificationTransformer_def wf_Embedding_def
      wf_Linear_def has_shape2_def model_k_def)

lemma forward_out_of_range:
  assumes "shape x = [b, t]"
    and "(\<exists>row\<in>set (vals x). \<exists>i\<in>set row. i < 0 \<or> int (num_embeddings (token_emb M)) \<le> i)
         \<or> num_embeddings (pos_emb M) < t"
  shows "TextClassificationTransformer_forward M x = Inl IndexOutOfRange"
proof -
  consider (tok) "Embedding_forward2 (token_emb M) x = Inl IndexOutOfRange"
    | (ok) rows where "Embedding_forward2 (token_emb M) x
         = Inr \<lparr>shape = [b, t, embedding_dim (token_emb M)], vals = rows\<rparr>"
    using Embedding_forward2_cases[of "token_emb M" x] assms(1) by auto
  then show ?thesis
  proof cases
    case tok
    then show ?thesis by (simp add: TextClassificationTransformer_forward_def)
  next
    case ok
    have "\<not> (\<exists>row\<in>set (vals x). \<exists>i\<in>set row. i < 0 \<or> int (num_embeddings (token_emb M)) \<le> i)"
      using Embedding_forward2_fail[of x "token_emb M"] ok by auto
    then have "num_embeddings (pos_emb M) < t" using assms(2) by blast
    then have "Embedding_forward1 (pos_emb M) (arange t) = Inl IndexOutOfRange"
      by (rule positions_fail)
    then show ?thesis using ok by (simp add: TextClassificationTransformer_forward_def)
  qed
qed

text \<open>
  Claim C5.  The classifier's forward fails with \<open>IndexOutOfRange\<close> whenever some token
  id is at least \<open>num_tokens\<close> (an id equal to \<open>num_tokens\<close> included: it is neither
  wrapped nor clamped) or the sequence length exceeds \<open>max_seq_len\<close>; the call returns the
  error and no logits.
\<close>

theorem classifier_index_out_of_range:
  assumes "wf_TextClassificationTransformer M" and "shape x = [b, t]"
    and "(\<exists>row\<in>set (vals x). \<exists>i\<in>set row. int (num_tokens M) \<le> i) \<or> max_seq_len M < t"
  shows "TextClassificationTransformer_forward M x = Inl IndexOutOfRange"
proof -
  have "num_embeddings (token_emb M) = num_tokens M"
    using assms(1) by (simp add: wf_TextClassificationTransformer_def)
  then have "(\<exists>row\<in>set (vals x). \<exists>i\<in>set row. i < 0 \<or> int (num_embeddings (token_emb M)) \<le> i)
         \<or> num_embeddings (pos_emb M) < t"
    using assms(3) by (auto simp: max_seq_len_def)
  then show ?thesis
    by (rule forward_out_of_range[OF assms(2)])
qed

theorem classifier_index_out_of_range_witness:
  "wf_TextClassificationTransformer demo_model \<and> shape demo_ids_bad = [1, 2] \<and>
   ((\<exists>row\<in>set (vals demo_ids_bad). \<exists>i\<in>set row. int (num_tokens demo_model) \<le> i) \<or>
    max_seq_len demo_model < 2) \<and>
   TextClassificationTransformer_forward demo_model demo_ids_bad = Inl IndexOutOfRange"
proof -
  have 1: "shape demo_ids_bad = [1, 2]"
    by (simp add: demo_ids_bad_def)
  have 2: "(\<exists>row\<in>set (vals demo_ids_bad). \<exists>i\<in>set row. int (num_tokens demo_model) \<le> i) \<or>
    max_seq_len demo_model < 2"
    by (simp add: demo_ids_bad_def demo_model_def)
  show ?thesis
    using classifier_index_out_of_range[OF demo_model_wf 1 2] demo_model_wf 1 2
    by (intro conjI)
qed

lemma map2_replicate:
  "length X = b \<Longrightarrow> map2 f (map F X) (replicate b c) = map (\<lambda>e. f (F e) c) X"
  by (induction X arbitrary: b) auto

lemma classifier_steps:
  assumes "wf_TextClassificationTransformer M" and "in_range_ids M b t x" and "k = model_k M"
  defines "tokens \<equiv> \<lparr>shape = [b, t, k],
      vals = map (map (\<lambda>i. emb_weight (token_emb M) ! nat i)) (vals x)\<rparr>"
  defines "p \<equiv> \<lparr>shape = [t, k], vals = map (\<lambda>j. emb_weight (pos_emb M) ! j) [0..<t]\<rparr>"
  defines "positions \<equiv> \<lparr>shape = [b, t, k], vals = replicate b (vals p)\<rparr>"
  defines "embedding \<equiv> \<lparr>shape = [b, t, k], vals = map (embed_example M t) (vals x)\<rparr>"
  defines "y \<equiv> \<lparr>shape = [b, t, k],
      vals = map (\<lambda>ids. blocks_example t k (transformer_blocks M) (embed_example M t ids)) (vals x)\<rparr>"
  defines "pooled \<equiv> \<lparr>shape = [b, k], vals = map (mean_time t k) (vals y)\<rparr>"
  defines "logits \<equiv> \<lparr>shape = [b, num_classes M], vals = map (classify_example M t) (vals x)\<rparr>"
  shows "Embedding_forward2 (token_emb M) x = Inr tokens"
    and "Embedding_forward1 (pos_emb M) (arange t) = Inr p"
    and "expand_batch b t k p = Inr positions"
    and "tensor_add tokens positions = Inr embedding"
    and "Sequential_forward (transformer_blocks M) embedding = Inr y"
    and "mean_dim1 y = Inr pooled"
    and "Linear_forward2 (classification M) pooled = Inr logits"
    and "TextClassificationTransformer_forward M x = Inr logits"
    and "has_shape2 b (num_classes M) (vals logits)"
proof -
  note em = embed_ok[OF assms(1,2,3)]
  have len: "length (vals x) = b"
    using assms(2) by (simp add: in_range_ids_def has_shape2_def)
  show 1: "Embedding_forward2 (token_emb M) x = Inr tokens"
    unfolding tokens_def by (rule em(1))
  show 2: "Embedding_forward1 (pos_emb M) (arange t) = Inr p"
    unfolding p_def by (rule em(2))
  show 3: "expand_batch b t k p = Inr positions"
    by (simp add: expand_batch_def positions_def p_def)
  show 4: "tensor_add tokens positions = Inr embedding"
    using len
    by (simp add: tensor_add_def tokens_def positions_def embedding_def p_def map2_replicate
        embed_example_def add_mat_def)
  have blocks: "\<forall>B\<in>set (transformer_blocks M). wf_TransformerBlock B \<and> blk_k B = k"
    using assms(1,3) by (simp add: wf_TextClassificationTransformer_def)
  note sq = Sequential_forward_ok[OF blocks em(3)]
  show 5: "Sequential_forward (transformer_blocks M) embedding = Inr y"
    using sq by (simp add: embedding_def y_def comp_def)
  show 6: "mean_dim1 y = Inr pooled"
    by (simp add: mean_dim1_def y_def pooled_def)
  show 7: "Linear_forward2 (classification M) pooled = Inr logits"
    using assms(1,3)
    by (simp add: Linear_forward2_def pooled_def logits_def y_def classify_example_def comp_def
        wf_TextClassificationTransformer_def num_classes_def)
  show "TextClassificationTransformer_forward M x = Inr logits"
    using 1 2 3 4 5 6 7
    by (simp add: TextClassificationTransformer_forward_def tokens_def)
  show "has_shape2 b (num_classes M) (vals logits)"
    using len by (auto simp: logits_def has_shape2_def classify_example_def num_classes_def)
qed

lemma demo_ids_valid: "valid_ids demo_model 1 2 demo_ids"
  by (simp add: valid_ids_def in_range_ids_def demo_ids_def demo_model_def has_shape2_def
      max_seq_len_def)

text \<open>
  Claim C3.  For a well-formed classifier of any depth and a valid token-id tensor of
  shape \<open>[b, t]\<close>, every step of \<open>forward\<close> succeeds: the token and position embeddings
  are summed elementwise, the sum runs through the blocks in order (it is returned
  unchanged when there is no block), the result is averaged over the time axis to shape
  \<open>[b, k]\<close> and mapped by the final linear projection.  The logits have shape
  \<open>[b, num_classes]\<close>, and their row for an example is \<open>classify_example\<close> of its ids.
\<close>

theorem classifier_forward_pipeline:
  assumes "wf_TextClassificationTransformer M" and "valid_ids M b t x"
  shows "\<exists>tokens p positions embedding y pooled logits.
           Embedding_forward2 (token_emb M) x = Inr tokens \<and>
           Embedding_forward1 (pos_emb M) (arange t) = Inr p \<and>
           expand_batch b t (model_k M) p = Inr positions \<and>
           tensor_add tokens positions = Inr embedding \<and>
           Sequential_forward (transformer_blocks M) embedding = Inr y \<and>
           (transformer_blocks M = [] \<longrightarrow> y = embedding) \<and>
           mean_dim1 y = Inr pooled \<and> shape pooled = [b, model_k M] \<and>
           Linear_forward2 (classification M) pooled = Inr logits \<and>
           TextClassificationTransformer_forward M x = Inr logits \<and>
           shape logits = [b, num_classes M] \<and> has_shape2 b (num_classes M) (vals logits) \<and>
           vals logits = map (classify_example M t) (vals x)"
proof -
  have r: "in_range_ids M b t x"
    using assms(2) by (simp add: valid_ids_def)
  note st = classifier_steps[OF assms(1) r refl]
  show ?thesis
    apply (intro exI conjI)
                apply (rule st(1))
               apply (rule st(2))
              apply (rule st(3))
             apply (rule st(4))
            apply (rule st(5))
           apply (simp add: blocks_example_def)
          apply (rule st(6))
         apply simp
        apply (rule st(7))
       apply (rule st(8))
      apply simp
     apply (rule st(9))
    apply simp
    done
qed

theorem classifier_forward_pipeline_witness:
  "wf_TextClassificationTransformer demo_model \<and> valid_ids demo_model 1 2 demo_ids \<and>
   (\<exists>tokens p positions embedding y pooled logits.
      Embedding_forward2 (token_emb demo_model) demo_ids = Inr tokens \<and>
      Embedding_forward1 (pos_emb demo_model) (arange 2) = Inr p \<and>
      expand_batch 1 2 (model_k demo_model) p = Inr positions \<and>
      tensor_add tokens positions = Inr embedding \<and>
      Sequential_forward (transformer_blocks demo_model) embedding = Inr y \<and>
      (transformer_blocks demo_model = [] \<longrightarrow> y = embedding) \<and>
      mean_dim1 y = Inr pooled \<and> shape pooled = [1, model_k demo_model] \<and>
      Linear_forward2 (classification demo_model) pooled = Inr logits \<and>
      TextClassificationTransformer_forward demo_model demo_ids = Inr logits \<and>
      shape logits = [1, num_classes demo_model] \<and>
      has_shape2 1 (num_classes demo_model) (vals logits) \<and>
      vals logits = map (classify_example demo_model 2) (vals demo_ids))"
  using classifier_forward_pipeline[OF demo_model_wf demo_ids_valid] demo_model_wf demo_ids_valid
  by (intro conjI)

section \<open>Independence of the examples of a batch\<close>

lemma forward_Inr_in_range:
  assumes "wf_TextClassificationTransformer M" and "shape x = [b, t]"
    and "has_shape2 b t (vals x)" and "TextClassificationTransformer_forward M x = Inr z"
  shows "in_range_ids M b t x"
proof -
  have "\<not> ((\<exists>row\<in>set (vals x). \<exists>i\<in>set row. i < 0 \<or> int (num_embeddings (token_emb M)) \<le> i)
         \<or> num_embeddings (pos_emb M) < t)"
    using forward_out_of_range[OF assms(2), of M] assms(4) by auto
  then have "\<forall>row\<in>set (vals x). \<forall>i\<in>set row. 0 \<le> i \<and> i < int (num_embeddings (token_emb M))"
    and "t \<le> num_embeddings (pos_emb M)"
    by (force simp: not_less not_le)+
  then show ?thesis
    using assms(1,2,3)
    by (simp add: in_range_ids_def wf_TextClassificationTransformer_def max_seq_len_def)
qed

text \<open>
  Claim C9.  Two batches that agree on example \<open>i\<close> get the same output for example
  \<open>i\<close>, whatever their other examples are: for \<open>SelfAttention.forward\<close>, which succeeds
  on both, and for the classifier's \<open>forward\<close> whenever both calls return logits (a call
  on a batch with an id or a length out of range returns none, for any example).
\<close>

theorem batch_noninterference:
  assumes "wf_SelfAttention P" and "k = sa_k P"
    and "shape u = [b, t, k]" and "has_shape3 b t k (vals u)"
    and "shape u' = [b', t, k]" and "has_shape3 b' t k (vals u')"
    and "i < b" and "i < b'" and "vals u ! i = vals u' ! i"
    and "wf_TextClassificationTransformer M" and "1 \<le> t"
    and "shape x = [b, t]" and "has_shape2 b t (vals x)"
    and "shape x' = [b', t]" and "has_shape2 b' t (vals x')"
    and "vals x ! i = vals x' ! i"
    and "TextClassificationTransformer_forward M x = Inr z"
    and "TextClassificationTransformer_forward M x' = Inr z'"
  shows "(\<exists>y y'. SelfAttention_forward P u = Inr y \<and> SelfAttention_forward P u' = Inr y' \<and>
            vals y ! i = vals y' ! i) \<and> vals z ! i = vals z' ! i"
proof -
  have u: "u = \<lparr>shape = [b, t, k], vals = vals u\<rparr>" and u': "u' = \<lparr>shape = [b', t, k], vals = vals u'\<rparr>"
    using assms(3,5) by simp_all
  have lu: "length (vals u) = b" "length (vals u') = b'"
    using assms(4,6) by (simp_all add: has_shape3_def)
  have y: "SelfAttention_forward P u = Inr \<lparr>shape = [b, t, k], vals = map (sa_example P t k) (vals u)\<rparr>"
    by (subst u) (rule SelfAttention_forward_ok[OF assms(1,2,4)])
  have y': "SelfAttention_forward P u' = Inr \<lparr>shape = [b', t, k], vals = map (sa_example P t k) (vals u')\<rparr>"
    by (subst u') (rule SelfAttention_forward_ok[OF assms(1,2,6)])
  have sa: "\<exists>y y'. SelfAttention_forward P u = Inr y \<and> SelfAttention_forward P u' = Inr y' \<and>
            vals y ! i = vals y' ! i"
    using y y' lu assms(7,8,9) by simp
  have r: "in_range_ids M b t x" "in_range_ids M b' t x'"
    using forward_Inr_in_range assms(10,12-15,17,18) by blast+
  have lx: "length (vals x) = b" "length (vals x') = b'"
    using assms(13,15) by (simp_all add: has_shape2_def)
  have "z = \<lparr>shape = [b, num_classes M], vals = map (classify_example M t) (vals x)\<rparr>"
    using classifier_steps(8)[OF assms(10) r(1) refl] assms(17) by simp
  moreover have "z' = \<lparr>shape = [b', num_classes M], vals = map (classify_example M t) (vals x')\<rparr>"
    using classifier_steps(8)[OF assms(10) r(2) refl] assms(18) by simp
  ultimately have "vals z ! i = vals z' ! i"
    using lx assms(7,8,16) by simp
  then show ?thesis using sa by blast
qed

theorem batch_noninterference_witness:
  "wf_SelfAttention demo_sa \<and> 1 = sa_k demo_sa \<and>
   shape demo_x = [1, 2, 1] \<and> has_shape3 1 2 1 (vals demo_x) \<and>
   shape demo_x2 = [2, 2, 1] \<and> has_shape3 2 2 1 (vals demo_x2) \<and>
   (0::nat) < 1 \<and> (0::nat) < 2 \<and> vals demo_x ! 0 = vals demo_x2 ! 0 \<and>
   wf_TextClassificationTransformer demo_model \<and> (1::nat) \<le> 2 \<and>
   shape demo_ids = [1, 2] \<and> has_shape2 1 2 (vals demo_ids) \<and>
   shape demo_ids2 = [2, 2] \<and> has_shape2 2 2 (vals demo_ids2) \<and>
   vals demo_ids ! 0 = vals demo_ids2 ! 0 \<and>
   TextClassificationTransformer_forward demo_model demo_ids
     = Inr \<lparr>shape = [1, num_classes demo_model],
            vals = map (classify_example demo_model 2) (vals demo_ids)\<rparr> \<and>
   TextClassificationTransformer_forward demo_model demo_ids2
     = Inr \<lparr>shape = [2, num_classes demo_model],
            vals = map (classify_example demo_model 2) (vals demo_ids2)\<rparr> \<and>
   (\<exists>y y'. SelfAttention_forward demo_sa demo_x = Inr y \<and>
       SelfAttention_forward demo_sa demo_x2 = Inr y' \<and> vals y ! 0 = vals y' ! 0) \<and>
   vals \<lparr>shape = [1, num_classes demo_model],
         vals = map (classify_example demo_model 2) (vals demo_ids)\<rparr> ! 0
     = vals \<lparr>shape = [2, num_classes demo_model],
             vals = map (classify_example demo_model 2) (vals demo_ids2)\<rparr> ! 0"
proof -
  have x2: "shape demo_x2 = [2, 2, 1]" "has_shape3 2 2 1 (vals demo_x2)"
    by (simp_all add: demo_x2_def has_shape3_def has_shape2_def)
  have ag: "vals demo_x ! 0 = vals demo_x2 ! 0"
    by (simp add: demo_x_def demo_x2_def)
  have i1: "shape demo_ids = [1, 2]" "has_shape2 1 2 (vals demo_ids)"
    by (simp_all add: demo_ids_def has_shape2_def)
  have i2: "shape demo_ids2 = [2, 2]" "has_shape2 2 2 (vals demo_ids2)"
    by (simp_all add: demo_ids2_def has_shape2_def)
  have agi: "vals demo_ids ! 0 = vals demo_ids2 ! 0"
    by (simp add: demo_ids_def demo_ids2_def)
  have r1: "in_range_ids demo_model 1 2 demo_ids"
    using demo_ids_valid by (simp add: valid_ids_def)
  have r2: "in_range_ids demo_model 2 2 demo_ids2"
    by (simp add: in_range_ids_def demo_ids2_def demo_model_def has_shape2_def max_seq_len_def)
  note f1 = classifier_steps(8)[OF demo_model_wf r1 refl]
  note f2 = classifier_steps(8)[OF demo_model_wf r2 refl]
  have l1: "(0::nat) < 1" and l2: "(0::nat) < 2" and l3: "(1::nat) \<le> 2"
    by simp_all
  note th = batch_noninterference[OF demo_sa_wf demo_sa_k demo_x_shape x2 l1 l2 ag
      demo_model_wf l3 i1 i2 agi f1 f2]
  show ?thesis
    using th demo_sa_wf demo_sa_k demo_x_shape x2 l1 l2 ag demo_model_wf l3 i1 i2 agi f1 f2
    by (intro conjI) blast+
qed

section \<open>Construction and the feed-forward width\<close>

lemma bind_args_Inr:
  assumes "bind_args sig kw = Inr a"
  shows "\<forall>n\<in>set (map fst kw). n \<in> set (map fst sig)"
    and "a = (\<lambda>n. case map_of kw n of
                       Some v \<Rightarrow> v
                     | None \<Rightarrow> (case map_of sig n of Some (Some d) \<Rightarrow> d | _ \<Rightarrow> 0))"
  using assms by (auto simp: bind_args_def split: if_splits)

lemma sa_sig_ok:
  "bind_args SelfAttention_sig [(''k'', k), (''heads'', h)]
     = Inr (\<lambda>n. case map_of [(''k'', k), (''heads'', h)] n of
                       Some v \<Rightarrow> v
                     | None \<Rightarrow> (case map_of SelfAttention_sig n of Some (Some d) \<Rightarrow> d | _ \<Rightarrow> 0))"
  unfolding bind_args_def SelfAttention_sig_def by simp

lemma SelfAttention_init_ok:
  "\<exists>att. SelfAttention_init ini p [(''k'', k), (''heads'', h)] = Inr att \<and> sa_k att = k \<and> sa_h att = h"
  by (simp add: SelfAttention_init_def sa_sig_ok Let_def)

lemma tb_n_mlp:
  assumes "bind_args TransformerBlock_sig kw = Inr a"
  shows "a ''n_mlp'' = kw_n_mlp kw"
  unfolding bind_args_Inr(2)[OF assms] kw_n_mlp_def TransformerBlock_sig_def
  by (simp split: option.splits)

lemma TransformerBlock_init_Inr:
  assumes "TransformerBlock_init ini p kw = Inr B"
  shows "in_features (ff0 B) = blk_k B \<and> out_features (ff0 B) = kw_n_mlp kw * blk_k B \<and>
         in_features (ff2 B) = kw_n_mlp kw * blk_k B \<and> out_features (ff2 B) = blk_k B"
proof -
  obtain a where a: "bind_args TransformerBlock_sig kw = Inr a"
    using assms by (cases "bind_args TransformerBlock_sig kw") (simp_all add: TransformerBlock_init_def)
  note n = tb_n_mlp[OF a]
  obtain att where att: "SelfAttention_init ini (0 # p) [(''k'', a ''k''), (''heads'', a ''heads'')] = Inr att"
    "sa_k att = a ''k''"
    using SelfAttention_init_ok by blast
  have "B = \<lparr>attention = att, norm1 = LayerNorm_init (a ''k''), norm2 = LayerNorm_init (a ''k''),
              ff0 = Linear_init ini (1 # p) (a ''k'') (a ''n_mlp'' * a ''k'') True,
              ff2 = Linear_init ini (2 # p) (a ''n_mlp'' * a ''k'') (a ''k'') True\<rparr>"
    using assms unfolding TransformerBlock_init_def a bind_err_simps Let_def att(1) by simp
  then show ?thesis
    using att(2) n by (simp add: Linear_init_def blk_k_def)
qed

lemma tb_sig_ok:
  "\<exists>a. bind_args TransformerBlock_sig [(''k'', k), (''n_mlp'', n)] = Inr a"
  unfolding bind_args_def TransformerBlock_sig_def by simp

lemma TransformerBlock_init_accepts:
  "\<exists>B. TransformerBlock_init ini p [(''k'', k), (''n_mlp'', n)] = Inr B"
proof -
  obtain a where a: "bind_args TransformerBlock_sig [(''k'', k), (''n_mlp'', n)] = Inr a"
    using tb_sig_ok by blast
  obtain att where att: "SelfAttention_init ini (0 # p) [(''k'', a ''k''), (''heads'', a ''heads'')] = Inr att"
    using SelfAttention_init_ok by blast
  show ?thesis
    unfolding TransformerBlock_init_def a bind_err_simps Let_def att by simp
qed

lemma mapM_err_Inr_set:
  "mapM_err f xs = Inr ys \<Longrightarrow> \<forall>y\<in>set ys. \<exists>x\<in>set xs. f x = Inr y"
proof (induction xs arbitrary: ys)
  case Nil
  then show ?case by simp
next
  case (Cons a xs)
  then show ?case
    by (cases "f a"; cases "mapM_err f xs") auto
qed

lemma kw_n_mlp_default: "kw_n_mlp [(''k'', k), (''heads'', h)] = 4"
  by (simp add: kw_n_mlp_def)

lemma TransformerBlock_init_k:
  assumes "TransformerBlock_init ini p [(''k'', k), (''heads'', h)] = Inr B"
  shows "blk_k B = k"
proof -
  have a: "bind_args TransformerBlock_sig [(''k'', k), (''heads'', h)]
     = Inr (\<lambda>n. case map_of [(''k'', k), (''heads'', h)] n of
                       Some v \<Rightarrow> v
                     | None \<Rightarrow> (case map_of TransformerBlock_sig n of Some (Some d) \<Rightarrow> d | _ \<Rightarrow> 0))"
    unfolding bind_args_def TransformerBlock_sig_def by simp
  obtain att where att: "SelfAttention_init ini (0 # p) [(''k'', k), (''heads'', h)] = Inr att"
    "sa_k att = k"
    using SelfAttention_init_ok by blast
  show ?thesis
    using assms att unfolding TransformerBlock_init_def a bind_err_simps Let_def
    by (auto simp: blk_k_def)
qed

lemma classifier_init_Inr:
  assumes "TextClassificationTransformer_init ini kw = Inr M"
  shows "''n_mlp'' \<notin> set (map fst kw) \<and>
         (\<forall>B\<in>set (transformer_blocks M). blk_k B = model_k M \<and>
            in_features (ff0 B) = model_k M \<and> out_features (ff0 B) = 4 * model_k M \<and>
            in_features (ff2 B) = 4 * model_k M \<and> out_features (ff2 B) = model_k M)"
proof -
  obtain a where a: "bind_args TextClassificationTransformer_sig kw = Inr a"
    using assms
    by (cases "bind_args TextClassificationTransformer_sig kw")
      (simp_all add: TextClassificationTransformer_init_def)
  have "''n_mlp'' \<notin> set (map fst TextClassificationTransformer_sig)"
    by (simp add: TextClassificationTransformer_sig_def)
  then have keys: "''n_mlp'' \<notin> set (map fst kw)"
    using bind_args_Inr(1)[OF a] by blast
  define f where "f = (\<lambda>i. TransformerBlock_init ini [2, i] [(''k'', a ''k''), (''heads'', a ''heads'')])"
  have init: "bind_err (mapM_err f [0..<a ''depth'']) (\<lambda>blocks.
         Inr \<lparr>num_tokens = a ''num_tokens'',
              token_emb = Embedding_init ini [0] (a ''num_tokens'') (a ''k''),
              pos_emb = Embedding_init ini [1] (a ''max_seq_len'') (a ''k''),
              transformer_blocks = blocks,
              classification = Linear_init ini [3] (a ''k'') (a ''num_classes'') True\<rparr>) = Inr M"
    using assms unfolding TextClassificationTransformer_init_def a bind_err_simps Let_def f_def .
  then obtain blocks where bl: "mapM_err f [0..<a ''depth''] = Inr blocks"
    by (cases "mapM_err f [0..<a ''depth'']") simp_all
  have M: "transformer_blocks M = blocks" "model_k M = a ''k''"
    using init unfolding bl bind_err_simps
    by (auto simp: model_k_def Embedding_init_def)
  have "blk_k B = a ''k'' \<and> in_features (ff0 B) = a ''k'' \<and> out_features (ff0 B) = 4 * a ''k'' \<and>
        in_features (ff2 B) = 4 * a ''k'' \<and> out_features (ff2 B) = a ''k''"
    if B: "B \<in> set blocks" for B
  proof -
    obtain i where i: "f i = Inr B"
      using mapM_err_Inr_set[OF bl] B by blast
    then have i': "TransformerBlock_init ini [2, i] [(''k'', a ''k''), (''heads'', a ''heads'')] = Inr B"
      by (simp add: f_def)
    show ?thesis
      using TransformerBlock_init_Inr[OF i'] TransformerBlock_init_k[OF i'] kw_n_mlp_default
      by simp
  qed
  then show ?thesis using keys M by simp
qed

lemma TransformerBlock_init_k_of:
  assumes "TransformerBlock_init ini p kw = Inr B" and "map_of kw ''k'' = Some k"
  shows "blk_k B = k"
proof -
  obtain a where a: "bind_args TransformerBlock_sig kw = Inr a"
    using assms(1)
    by (cases "bind_args TransformerBlock_sig kw") (simp_all add: TransformerBlock_init_def)
  have k: "a ''k'' = k"
    unfolding bind_args_Inr(2)[OF a] using assms(2) by simp
  obtain att where att: "SelfAttention_init ini (0 # p) [(''k'', a ''k''), (''heads'', a ''heads'')] = Inr att"
    "sa_k att = a ''k''"
    using SelfAttention_init_ok by blast
  show ?thesis
    using assms(1) att k unfolding TransformerBlock_init_def a bind_err_simps Let_def
    by (auto simp: blk_k_def)
qed

lemma TransformerBlock_init_n_mlp:
  "\<exists>B. TransformerBlock_init ini p [(''k'', k), (''n_mlp'', n)] = Inr B \<and> blk_k B = k \<and>
        out_features (ff0 B) = n * k"
proof -
  obtain B where B: "TransformerBlock_init ini p [(''k'', k), (''n_mlp'', n)] = Inr B"
    using TransformerBlock_init_accepts by blast
  have "blk_k B = k"
    by (rule TransformerBlock_init_k_of[OF B]) simp
  moreover have "kw_n_mlp [(''k'', k), (''n_mlp'', n)] = n"
    by (simp add: kw_n_mlp_def)
  ultimately show ?thesis
    using B TransformerBlock_init_Inr[OF B] by auto
qed

lemma TransformerBlock_init_default:
  "\<exists>B. TransformerBlock_init ini p [(''k'', k)] = Inr B \<and> blk_k B = k \<and>
        out_features (ff0 B) = 4 * k"
proof -
  obtain a where a: "bind_args TransformerBlock_sig [(''k'', k)] = Inr a"
    unfolding bind_args_def TransformerBlock_sig_def by simp
  obtain att where att: "SelfAttention_init ini (0 # p) [(''k'', a ''k''), (''heads'', a ''heads'')] = Inr att"
    using SelfAttention_init_ok by blast
  obtain B where B: "TransformerBlock_init ini p [(''k'', k)] = Inr B"
    unfolding TransformerBlock_init_def a bind_err_simps Let_def att by simp
  have "blk_k B = k"
    by (rule TransformerBlock_init_k_of[OF B]) simp
  moreover have "kw_n_mlp [(''k'', k)] = 4"
    by (simp add: kw_n_mlp_def)
  ultimately show ?thesis
    using B TransformerBlock_init_Inr[OF B] by auto
qed

lemma mapM_err_total:
  "\<forall>x\<in>set xs. \<exists>y. f x = Inr y \<Longrightarrow> \<exists>ys. mapM_err f xs = Inr ys"
  by (induction xs) auto

lemma classifier_init_accepts:
  "\<exists>M. TextClassificationTransformer_init ini [(''k'', k), (''depth'', d)] = Inr M"
proof -
  obtain a where a: "bind_args TextClassificationTransformer_sig [(''k'', k), (''depth'', d)] = Inr a"
    unfolding bind_args_def TextClassificationTransformer_sig_def by simp
  define f where "f = (\<lambda>i. TransformerBlock_init ini [2, i] [(''k'', a ''k''), (''heads'', a ''heads'')])"
  have "\<exists>B. f i = Inr B" for i
  proof -
    obtain b where b: "bind_args TransformerBlock_sig [(''k'', a ''k''), (''heads'', a ''heads'')] = Inr b"
      unfolding bind_args_def TransformerBlock_sig_def by simp
    obtain att where att: "SelfAttention_init ini [0, 2, i] [(''k'', b ''k''), (''heads'', b ''heads'')] = Inr att"
      using SelfAttention_init_ok by blast
    show ?thesis
      unfolding f_def TransformerBlock_init_def b bind_err_simps Let_def att by simp
  qed
  then obtain blocks where bl: "mapM_err f [0..<a ''depth''] = Inr blocks"
    using mapM_err_total[of "[0..<a ''depth'']" f] by blast
  show ?thesis
    unfolding TextClassificationTransformer_init_def a bind_err_simps Let_def f_def[symmetric] bl
    by simp
qed

text \<open>
  The well-formedness predicates say no more than the constructors establish: every module
  a constructor returns is well-formed.
\<close>

lemma Linear_init_wf: "wf_Linear (Linear_init ini p n m wb)"
  by (simp add: wf_Linear_def Linear_init_def has_shape2_def)

lemma Linear_init_sel:
  "in_features (Linear_init ini p n m wb) = n" "out_features (Linear_init ini p n m wb) = m"
  "bias (Linear_init ini p n m False) = None" "bias (Linear_init ini p n m True) \<noteq> None"
  by (simp_all add: Linear_init_def)

lemma SelfAttention_init_wf:
  assumes "SelfAttention_init ini p kw = Inr att"
  shows "wf_SelfAttention att"
proof -
  obtain a where a: "bind_args SelfAttention_sig kw = Inr a"
    using assms by (cases "bind_args SelfAttention_sig kw") (simp_all add: SelfAttention_init_def)
  have "att = \<lparr>sa_k = a ''k'', sa_h = a ''heads'',
            Wq = Linear_init ini (0 # p) (a ''k'') (a ''k'' * a ''heads'') False,
            Wk = Linear_init ini (1 # p) (a ''k'') (a ''k'' * a ''heads'') False,
            Wv = Linear_init ini (2 # p) (a ''k'') (a ''k'' * a ''heads'') False,
            unifyheads = Linear_init ini (3 # p) (a ''heads'' * a ''k'') (a ''k'') True\<rparr>"
    using assms unfolding SelfAttention_init_def a bind_err_simps Let_def by simp
  then show ?thesis
    by (simp add: wf_SelfAttention_def Linear_init_wf Linear_init_sel)
qed

lemma LayerNorm_init_wf: "wf_LayerNorm (LayerNorm_init k)" "normalized_shape (LayerNorm_init k) = k"
  by (simp_all add: wf_LayerNorm_def LayerNorm_init_def)

lemma TransformerBlock_init_wf:
  assumes "TransformerBlock_init ini p kw = Inr B"
  shows "wf_TransformerBlock B"
proof -
  obtain a where a: "bind_args TransformerBlock_sig kw = Inr a"
    using assms by (cases "bind_args TransformerBlock_sig kw") (simp_all add: TransformerBlock_init_def)
  obtain att where att: "SelfAttention_init ini (0 # p) [(''k'', a ''k''), (''heads'', a ''heads'')] = Inr att"
    "sa_k att = a ''k''"
    using SelfAttention_init_ok by blast
  have B: "B = \<lparr>attention = att, norm1 = LayerNorm_init (a ''k''), norm2 = LayerNorm_init (a ''k''),
              ff0 = Linear_init ini (1 # p) (a ''k'') (a ''n_mlp'' * a ''k'') True,
              ff2 = Linear_init ini (2 # p) (a ''n_mlp'' * a ''k'') (a ''k'') True\<rparr>"
    using assms unfolding TransformerBlock_init_def a bind_err_simps Let_def att(1) by simp
  show ?thesis
    unfolding B using SelfAttention_init_wf[OF att(1)] att(2)
    by (simp add: wf_TransformerBlock_def blk_k_def LayerNorm_init_wf Linear_init_wf Linear_init_sel)
qed

lemma TextClassificationTransformer_init_wf:
  assumes "TextClassificationTransformer_init ini kw = Inr M"
  shows "wf_TextClassificationTransformer M"
proof -
  obtain a where a: "bind_args TextClassificationTransformer_sig kw = Inr a"
    using assms
    by (cases "bind_args TextClassificationTransformer_sig kw")
      (simp_all add: TextClassificationTransformer_init_def)
  define f where "f = (\<lambda>i. TransformerBlock_init ini [2, i] [(''k'', a ''k''), (''heads'', a ''heads'')])"
  have init: "bind_err (mapM_err f [0..<a ''depth'']) (\<lambda>blocks.
         Inr \<lparr>num_tokens = a ''num_tokens'',
              token_emb = Embedding_init ini [0] (a ''num_tokens'') (a ''k''),
              pos_emb = Embedding_init ini [1] (a ''max_seq_len'') (a ''k''),
              transformer_blocks = blocks,
              classification = Linear_init ini [3] (a ''k'') (a ''num_classes'') True\<rparr>) = Inr M"
    using assms unfolding TextClassificationTransformer_init_def a bind_err_simps Let_def f_def .
  then obtain blocks where bl: "mapM_err f [0..<a ''depth''] = Inr blocks"
    by (cases "mapM_err f [0..<a ''depth'']") simp_all
  have M: "M = \<lparr>num_tokens = a ''num_tokens'',
              token_emb = Embedding_init ini [0] (a ''num_tokens'') (a ''k''),
              pos_emb = Embedding_init ini [1] (a ''max_seq_len'') (a ''k''),
              transformer_blocks = blocks,
              classification = Linear_init ini [3] (a ''k'') (a ''num_classes'') True\<rparr>"
    using init unfolding bl bind_err_simps by simp
  have "wf_TransformerBlock B \<and> blk_k B = a ''k''" if B: "B \<in> set blocks" for B
  proof -
    obtain i where "f i = Inr B"
      using mapM_err_Inr_set[OF bl] B by blast
    then have i: "TransformerBlock_init ini [2, i] [(''k'', a ''k''), (''heads'', a ''heads'')] = Inr B"
      by (simp add: f_def)
    show ?thesis
      using TransformerBlock_init_wf[OF i] TransformerBlock_init_k[OF i] by simp
  qed
  then show ?thesis
    unfolding M
    by (simp add: wf_TextClassificationTransformer_def wf_Embedding_def Embedding_init_def
        has_shape2_def model_k_def Linear_init_wf Linear_init_sel)
qed

text \<open>
  Claim C8, as stated, fails: the classifier's constructor has no parameter \<open>n_mlp\<close>, and
  a call that passes one raises \<open>TypeError\<close>.
\<close>

theorem classifier_rejects_n_mlp: "TextClassificationTransformer_init zero_init [(''k'', 2), (''n_mlp'', 2)] = Inl TypeError"
proof -
  have "bind_args TextClassificationTransformer_sig [(''k'', 2), (''n_mlp'', 2)] = Inl TypeError"
    unfolding bind_args_def TextClassificationTransformer_sig_def by simp
  then show ?thesis
    by (simp add: TextClassificationTransformer_init_def)
qed

text \<open>
  Claim C8, amended.  \<open>n_mlp\<close> is a construction-time parameter of \<open>TransformerBlock\<close>,
  with default 4: a block built with \<open>n_mlp = n\<close> has a feed-forward sublayer of two
  linear projections with a ReLU between them, from \<open>k\<close> to the hidden width \<open>n * k\<close> and
  back to \<open>k\<close>.  The classifier's constructor does not accept \<open>n_mlp\<close> and builds every
  block with the default, so that each of its blocks has hidden width \<open>4 * k\<close>.
\<close>

theorem n_mlp_configures_block_only:
  assumes "TransformerBlock_init ini p kw = Inr B"
    and "TextClassificationTransformer_init ini kw' = Inr M"
  shows "(\<exists>B'. TransformerBlock_init ini p [(''k'', k), (''n_mlp'', n)] = Inr B' \<and> blk_k B' = k \<and>
            out_features (ff0 B') = n * k) \<and>
         (\<exists>B'. TransformerBlock_init ini p [(''k'', k)] = Inr B' \<and> blk_k B' = k \<and>
            out_features (ff0 B') = 4 * k) \<and>
         in_features (ff0 B) = blk_k B \<and> out_features (ff0 B) = kw_n_mlp kw * blk_k B \<and>
         in_features (ff2 B) = kw_n_mlp kw * blk_k B \<and> out_features (ff2 B) = blk_k B \<and>
         ff B x = bind_err (Linear_forward (ff0 B) x) (\<lambda>y. Linear_forward (ff2 B) (ReLU y)) \<and>
         ''n_mlp'' \<notin> set (map fst kw') \<and>
         (\<forall>C\<in>set (transformer_blocks M). blk_k C = model_k M \<and>
            in_features (ff0 C) = model_k M \<and> out_features (ff0 C) = 4 * model_k M \<and>
            in_features (ff2 C) = 4 * model_k M \<and> out_features (ff2 C) = model_k M)"
  using TransformerBlock_init_n_mlp[of ini p k n] TransformerBlock_init_default[of ini p k]
    TransformerBlock_init_Inr[OF assms(1)] classifier_init_Inr[OF assms(2)] ff_def[of B x]
  by (intro conjI) blast+

theorem n_mlp_configures_block_only_witness:
  "\<exists>B M. TransformerBlock_init zero_init [] [(''k'', 1), (''n_mlp'', 2)] = Inr B \<and>
     TextClassificationTransformer_init zero_init [(''k'', 1), (''depth'', 1)] = Inr M \<and>
     (\<exists>B'. TransformerBlock_init zero_init [] [(''k'', 3), (''n_mlp'', 2)] = Inr B' \<and> blk_k B' = 3 \<and>
            out_features (ff0 B') = 2 * 3) \<and>
     (\<exists>B'. TransformerBlock_init zero_init [] [(''k'', 3)] = Inr B' \<and> blk_k B' = 3 \<and>
            out_features (ff0 B') = 4 * 3) \<and>
     in_features (ff0 B) = blk_k B \<and>
     out_features (ff0 B) = kw_n_mlp [(''k'', 1), (''n_mlp'', 2)] * blk_k B \<and>
     in_features (ff2 B) = kw_n_mlp [(''k'', 1), (''n_mlp'', 2)] * blk_k B \<and>
     out_features (ff2 B) = blk_k B \<and>
     ff B demo_x = bind_err (Linear_forward (ff0 B) demo_x) (\<lambda>y. Linear_forward (ff2 B) (ReLU y)) \<and>
     ''n_mlp'' \<notin> set (map fst [(''k'', 1::nat), (''depth'', 1)]) \<and>
     (\<forall>C\<in>set (transformer_blocks M). blk_k C = model_k M \<and>
        in_features (ff0 C) = model_k M \<and> out_features (ff0 C) = 4 * model_k M \<and>
        in_features (ff2 C) = 4 * model_k M \<and> out_features (ff2 C) = model_k M)"
proof -
  obtain B where B: "TransformerBlock_init zero_init [] [(''k'', 1), (''n_mlp'', 2)] = Inr B"
    using TransformerBlock_init_accepts by blast
  obtain M where M: "TextClassificationTransformer_init zero_init [(''k'', 1), (''depth'', 1)] = Inr M"
    using classifier_init_accepts by blast
  show ?thesis
    using n_mlp_configures_block_only[OF B M, of 3 2 demo_x] B M by blast
qed

section \<open>Splitting and joining the last axis\<close>

lemma view_last_Suc: "view_last (Suc n) m v = take m v # view_last n m (drop m v)"
proof -
  have "[0..<Suc n] = 0 # map Suc [0..<n]"
    by (simp add: upt_conv_Cons map_Suc_upt del: upt_Suc)
  then show ?thesis
    unfolding view_last_def by (simp add: comp_def add.commute del: upt_Suc)
qed

lemma concat_view_last: "length v = n * m \<Longrightarrow> concat (view_last n m v) = v"
proof (induction n arbitrary: v)
  case 0
  then show ?case by (simp add: view_last_def)
next
  case (Suc n)
  have "length (drop m v) = n * m" using Suc.prems by simp
  then show ?case using Suc.IH by (simp add: view_last_Suc)
qed

lemma length_view_last [simp]: "length (view_last n m v) = n"
  by (simp add: view_last_def)

lemma view_last_nth_length:
  "length v = n * m \<Longrightarrow> j < n \<Longrightarrow> length (view_last n m v ! j) = m"
proof -
  assume l: "length v = n * m" and j: "j < n"
  have "Suc j * m \<le> n * m" using j by (intro mult_le_mono1) simp
  then show ?thesis using l j by (simp add: view_last_def)
qed

lemma zip_map_same: "zip (map f xs) (map g xs) = map (\<lambda>x. (f x, g x)) xs"
  by (induction xs) auto

section \<open>Permuting the positions\<close>

lemma is_perm_length: "is_perm t p \<Longrightarrow> length p = t"
  unfolding is_perm_def by (metis size_mset length_upt diff_zero)

lemma is_perm_set: "is_perm t p \<Longrightarrow> set p = {0..<t}"
  unfolding is_perm_def by (metis set_mset_mset set_upt)

lemma length_permute [simp]: "length (permute p xs) = length p"
  by (simp add: permute_def)

lemma permute_map:
  "\<forall>j\<in>set p. j < length xs \<Longrightarrow> permute p (map f xs) = map f (permute p xs)"
  by (simp add: permute_def)

lemma permute_nth: "d < length p \<Longrightarrow> permute p xs ! d = xs ! (p ! d)"
  by (simp add: permute_def)

lemma sum_list_perm:
  fixes G :: "nat \<Rightarrow> real"
  assumes "is_perm t p"
  shows "(\<Sum>d\<leftarrow>[0..<t]. G (p ! d)) = (\<Sum>d\<leftarrow>[0..<t]. G d)"
proof -
  have "map (\<lambda>d. G (p ! d)) [0..<t] = map G p"
    using map_index_eq[of G p] is_perm_length[OF assms] by simp
  moreover have "sum_list (map G p) = sum_list (map G [0..<t])"
  proof -
    have "mset (map G p) = mset (map G [0..<t])"
      using assms by (simp add: is_perm_def)
    then show ?thesis by (metis sum_mset_sum_list)
  qed
  ultimately show ?thesis by simp
qed

lemma mset_permute: "is_perm (length r) p \<Longrightarrow> mset (permute p r) = mset r"
proof -
  assume a: "is_perm (length r) p"
  have "mset (permute p r) = image_mset ((!) r) (mset p)"
    by (simp add: permute_def)
  also have "\<dots> = image_mset ((!) r) (mset [0..<length r])"
    using a by (simp add: is_perm_def)
  also have "\<dots> = mset (map ((!) r) [0..<length r])"
    by simp
  also have "\<dots> = mset r"
    by (simp add: map_nth)
  finally show ?thesis .
qed

lemma softmax_permute:
  assumes "is_perm (length r) p"
  shows "softmax (permute p r) = permute p (softmax r)"
proof -
  have "mset (map exp (permute p r)) = mset (map exp r)"
    using mset_permute[OF assms] by simp
  then have s: "(\<Sum>u\<leftarrow>permute p r. exp u) = (\<Sum>u\<leftarrow>r. exp u)"
    by (metis sum_mset_sum_list)
  have in_range: "\<forall>j\<in>set p. j < length r"
    using is_perm_set[OF assms] by simp
  show ?thesis
    unfolding softmax_def s by (rule permute_map[OF in_range, symmetric])
qed

lemma heads_of_permute:
  assumes "\<forall>j\<in>set p. j < length e"
  shows "heads_of W h k (permute p e) = map (permute p) (heads_of W h k e)"
  using assms by (simp add: heads_of_def transpose_n_def permute_def)

lemma head_scores_permute:
  assumes "\<forall>j\<in>set p. j < length q" and "\<forall>j\<in>set p. j < length c"
  shows "head_scores k (permute p q) (permute p c)
           = map (permute p) (permute p (head_scores k q c))"
  using assms by (simp add: head_scores_def permute_def)

lemma matmul_permute:
  assumes "is_perm t p" and "length w = t"
  shows "matmul t k (map (permute p) (permute p w)) (permute p v) = permute p (matmul t k w v)"
proof -
  have lp: "length p = t" by (rule is_perm_length[OF assms(1)])
  have in_range: "\<forall>j\<in>set p. j < length w"
    using is_perm_set[OF assms(1)] assms(2) by simp
  have "(\<Sum>d\<leftarrow>[0..<t]. permute p row ! d * permute p v ! d ! j) = (\<Sum>d\<leftarrow>[0..<t]. row ! d * v ! d ! j)"
    for row :: vec and j
  proof -
    have "(\<Sum>d\<leftarrow>[0..<t]. permute p row ! d * permute p v ! d ! j)
        = (\<Sum>d\<leftarrow>[0..<t]. row ! (p ! d) * v ! (p ! d) ! j)"
      using lp by (intro arg_cong[where f = sum_list] map_cong refl) (simp add: permute_nth)
    also have "\<dots> = (\<Sum>d\<leftarrow>[0..<t]. row ! d * v ! d ! j)"
      by (rule sum_list_perm[OF assms(1), of "\<lambda>d. row ! d * v ! d ! j"])
    finally show ?thesis .
  qed
  then have "matmul t k (map (permute p) (permute p w)) (permute p v)
      = map (\<lambda>row. map (\<lambda>j. \<Sum>d\<leftarrow>[0..<t]. row ! d * v ! d ! j) [0..<k]) (permute p w)"
    by (simp add: matmul_def comp_def)
  also have "\<dots> = permute p (matmul t k w v)"
    unfolding matmul_def by (rule permute_map[OF in_range, symmetric])
  finally show ?thesis .
qed

lemma weights_permute:
  assumes "is_perm t p" and "length q = t" and "length c = t"
  shows "map softmax (head_scores k (permute p q) (permute p c))
           = map (permute p) (permute p (map softmax (head_scores k q c)))"
proof -
  let ?S = "head_scores k q c"
  have rq: "\<forall>j\<in>set p. j < length q" and rc: "\<forall>j\<in>set p. j < length c"
    using is_perm_set[OF assms(1)] assms(2,3) by simp_all
  have lS: "length ?S = t" and rows: "\<forall>r\<in>set ?S. length r = t"
    using assms(2,3) by (auto simp: head_scores_def)
  have rS: "\<forall>j\<in>set p. j < length ?S"
    using rq lS assms(2) by simp
  have "map softmax (head_scores k (permute p q) (permute p c))
      = map (\<lambda>r. softmax (permute p r)) (permute p ?S)"
    by (simp add: head_scores_permute[OF rq rc] comp_def)
  also have "\<dots> = map (\<lambda>r. permute p (softmax r)) (permute p ?S)"
  proof (rule map_cong[OF refl])
    fix r assume "r \<in> set (permute p ?S)"
    then have "r \<in> set ?S" using rS by (auto simp: permute_def)
    then have "length r = t" using rows by simp
    then show "softmax (permute p r) = permute p (softmax r)"
      using softmax_permute[of r p] assms(1) by simp
  qed
  also have "\<dots> = map (permute p) (permute p (map softmax ?S))"
    by (simp add: permute_map[OF rS] comp_def)
  finally show ?thesis .
qed

lemma attend_permute:
  assumes "is_perm t p" and "length q = t" and "length c = t"
  shows "attend t k (permute p q, permute p c, permute p v) = permute p (attend t k (q, c, v))"
proof -
  have "length (map softmax (head_scores k q c)) = t"
    using assms(2) by (simp add: head_scores_def)
  then show ?thesis
    by (simp add: attend_def weights_permute[OF assms] matmul_permute[OF assms(1)])
qed

lemma zip3_map:
  "zip (map f A) (zip (map f C) (map f V)) = map (\<lambda>(q, c, v). (f q, f c, f v)) (zip A (zip C V))"
proof (induction A arbitrary: C V)
  case Nil
  then show ?case by simp
next
  case (Cons a A)
  then show ?case by (cases C; cases V) simp_all
qed

lemma transpose_n_permute:
  assumes "is_perm t p"
  shows "transpose_n t (map (permute p) Os) = permute p (transpose_n t Os)"
proof -
  have lp: "length p = t" by (rule is_perm_length[OF assms])
  have "transpose_n t (map (permute p) Os) = map (\<lambda>j. map (\<lambda>m. m ! (p ! j)) Os) [0..<length p]"
    unfolding transpose_n_def lp
    by (rule map_cong[OF refl]) (simp add: permute_nth lp)
  also have "\<dots> = map (\<lambda>j. map (\<lambda>m. m ! j) Os) p"
    by (rule map_index_eq)
  also have "\<dots> = permute p (transpose_n t Os)"
    using is_perm_set[OF assms] by (simp add: permute_def transpose_n_def)
  finally show ?thesis .
qed

lemma attend_heads_permute:
  assumes "is_perm t p" and "length e = t"
  shows "map (attend t k)
           (zip (heads_of Q h k (permute p e))
              (zip (heads_of C h k (permute p e)) (heads_of V h k (permute p e))))
       = map (permute p) (map (attend t k)
           (zip (heads_of Q h k e) (zip (heads_of C h k e) (heads_of V h k e))))"
proof -
  have r: "\<forall>j\<in>set p. j < length e"
    using is_perm_set[OF assms(1)] assms(2) by simp
  have "attend t k (permute p q, permute p c, permute p v) = permute p (attend t k (q, c, v))"
    if "(q, c, v) \<in> set (zip (heads_of Q h k e) (zip (heads_of C h k e) (heads_of V h k e)))"
    for q c v
  proof -
    have "q \<in> set (heads_of Q h k e)" "(c, v) \<in> set (zip (heads_of C h k e) (heads_of V h k e))"
      using that by (auto dest: set_zip_leftD set_zip_rightD)
    then have "q \<in> set (heads_of Q h k e)" "c \<in> set (heads_of C h k e)"
      by (auto dest: set_zip_leftD)
    then have "length q = t" "length c = t"
      using heads_of_rows assms(2) by blast+
    then show ?thesis by (rule attend_permute[OF assms(1)])
  qed
  then show ?thesis
    unfolding heads_of_permute[OF r] zip3_map by (auto simp: comp_def)
qed

lemma sa_example_permute:
  assumes "is_perm t p" and "length e = t"
  shows "sa_example P t k (permute p e) = permute p (sa_example P t k e)"
proof -
  have r: "\<forall>j\<in>set p. j < t"
    using is_perm_set[OF assms(1)] by simp
  show ?thesis
    unfolding sa_example_def attend_heads_permute[OF assms] transpose_n_permute[OF assms(1)]
    using r by (simp add: permute_map transpose_n_def)
qed

lemma weights_example_permute:
  assumes "is_perm t p" and "length e = t"
  shows "weights_example P k (permute p e)
           = map (\<lambda>m. map (permute p) (permute p m)) (weights_example P k e)"
proof -
  have r: "\<forall>j\<in>set p. j < length e"
    using is_perm_set[OF assms(1)] assms(2) by simp
  have one: "map softmax (head_scores k (permute p q) (permute p c))
           = map (permute p) (permute p (map softmax (head_scores k q c)))"
    if "(q, c) \<in> set (zip (heads_of (Wq P) (sa_h P) k e) (heads_of (Wk P) (sa_h P) k e))" for q c
  proof -
    have "q \<in> set (heads_of (Wq P) (sa_h P) k e)" "c \<in> set (heads_of (Wk P) (sa_h P) k e)"
      using that by (auto dest: set_zip_leftD set_zip_rightD)
    then have "length q = t" "length c = t"
      using heads_of_rows assms(2) by blast+
    then show ?thesis by (rule weights_permute[OF assms(1)])
  qed
  have "zip (map (permute p) A) (map (permute p) C) = map (\<lambda>(q, c). (permute p q, permute p c)) (zip A C)"
    for A C :: tensor3
    by (simp add: zip_map_map)
  then show ?thesis
    unfolding weights_example_def heads_of_permute[OF r]
    using one by (auto simp: comp_def)
qed

lemma exp_one_ratio: "exp (1::real) / (exp 1 + 1) \<noteq> 1 / 2"
proof -
  have "exp (1::real) > 1" by (simp add: exp_gt_one)
  then show ?thesis by (simp add: field_simps)
qed

lemma demo_perm: "is_perm 2 [1, 0]"
  by (simp add: is_perm_def eval_nat_numeral)

lemma weights_not_invariant:
  "sa_w demo_sa (permute_positions [1, 0] demo_x) \<noteq> sa_w demo_sa demo_x"
proof -
  have w0: "weights_example demo_sa 1 [[0], [1]] =
      [[[1 / 2, 1 / 2], [1 / (1 + exp 1), exp 1 / (1 + exp 1)]],
       [[1 / 2, 1 / 2], [1 / (1 + exp 2), exp 2 / (1 + exp 2)]]]"
    by (simp add: weights_example_def heads_of_def transpose_n_def view_last_def Linear_vec_def
      demo_sa_def head_scores_def softmax_def eval_nat_numeral)
  have w1: "weights_example demo_sa 1 [[1], [0]] =
      [[[exp 1 / (exp 1 + 1), 1 / (exp 1 + 1)], [1 / 2, 1 / 2]],
       [[exp 2 / (exp 2 + 1), 1 / (exp 2 + 1)], [1 / 2, 1 / 2]]]"
    by (simp add: weights_example_def heads_of_def transpose_n_def view_last_def Linear_vec_def
      demo_sa_def head_scores_def softmax_def eval_nat_numeral)
  have x: "demo_x = \<lparr>shape = [1, 2, 1], vals = [[[0], [1]]]\<rparr>"
    by (simp add: demo_x_def)
  have x': "permute_positions [1, 0] demo_x = \<lparr>shape = [1, 2, 1], vals = [[[1], [0]]]\<rparr>"
    by (simp add: demo_x_def permute_positions_def permute_def)
  have sh: "has_shape3 1 2 1 [[[0::real], [1]]]" "has_shape3 1 2 1 [[[1::real], [0]]]"
    by (simp_all add: has_shape3_def has_shape2_def)
  have a: "sa_w demo_sa demo_x = Inr (weights_example demo_sa 1 [[0], [1]])"
    unfolding x using sa_w_ok[OF demo_sa_wf demo_sa_k sh(1)] by simp
  have b: "sa_w demo_sa (permute_positions [1, 0] demo_x) = Inr (weights_example demo_sa 1 [[1], [0]])"
    unfolding x' using sa_w_ok[OF demo_sa_wf demo_sa_k sh(2)] by simp
  show ?thesis
    unfolding a b w0 w1 using exp_one_ratio by simp
qed

text \<open>
  Claim C7.  Self-attention is equivariant under a permutation \<open>p\<close> of the \<open>t\<close>
  positions: on the permuted input the attention weights are those of the original input
  with rows and columns permuted by \<open>p\<close>, and the output is the original output with its
  positions permuted by \<open>p\<close>.  It is not invariant: there is a module, an input and a
  permutation for which the permuted input has different attention weights.
\<close>

theorem self_attention_permutation_equivariant:
  assumes "wf_SelfAttention P" and "k = sa_k P"
    and "shape x = [b, t, k]" and "has_shape3 b t k (vals x)" and "is_perm t p"
  shows "(\<exists>w y. sa_w P x = Inr w \<and> SelfAttention_forward P x = Inr y \<and>
           sa_w P (permute_positions p x) = Inr (map (\<lambda>m. map (permute p) (permute p m)) w) \<and>
           SelfAttention_forward P (permute_positions p x) = Inr (permute_positions p y)) \<and>
         (\<exists>P' x' p' b' t'. wf_SelfAttention P' \<and> shape x' = [b', t', sa_k P'] \<and>
           has_shape3 b' t' (sa_k P') (vals x') \<and> is_perm t' p' \<and>
           sa_w P' (permute_positions p' x') \<noteq> sa_w P' x')"
proof -
  let ?X = "vals x" and ?X' = "map (permute p) (vals x)"
  have x: "x = \<lparr>shape = [b, t, k], vals = ?X\<rparr>"
    using assms(3) by simp
  have x': "permute_positions p x = \<lparr>shape = [b, t, k], vals = ?X'\<rparr>"
    using assms(3) by (simp add: permute_positions_def)
  have rows: "\<forall>e\<in>set ?X. length e = t"
    using assms(4) by (simp add: has_shape3_def has_shape2_def)
  have lp: "length p = t" and sp: "set p = {0..<t}"
    using is_perm_length is_perm_set assms(5) by blast+
  have sh': "has_shape3 b t k ?X'"
    using assms(4) lp sp by (auto simp: has_shape3_def has_shape2_def permute_def)
  have w: "sa_w P x = Inr (concat (map (weights_example P k) ?X))"
    by (subst x) (rule sa_w_ok[OF assms(1,2,4)])
  have y: "SelfAttention_forward P x = Inr \<lparr>shape = [b, t, k], vals = map (sa_example P t k) ?X\<rparr>"
    by (subst x) (rule SelfAttention_forward_ok[OF assms(1,2,4)])
  have eq1: "map (weights_example P k) ?X'
      = map (\<lambda>e. map (\<lambda>m. map (permute p) (permute p m)) (weights_example P k e)) ?X"
    unfolding map_map comp_def
    by (rule map_cong[OF refl]) (simp add: rows weights_example_permute[OF assms(5)])
  have "concat (map (weights_example P k) ?X')
      = map (\<lambda>m. map (permute p) (permute p m)) (concat (map (weights_example P k) ?X))"
    unfolding eq1 by (simp add: map_concat comp_def)
  then have w': "sa_w P (permute_positions p x)
      = Inr (map (\<lambda>m. map (permute p) (permute p m)) (concat (map (weights_example P k) ?X)))"
    unfolding x' by (simp only: sa_w_ok[OF assms(1,2) sh'])
  have "map (sa_example P t k) ?X' = map (permute p) (map (sa_example P t k) ?X)"
    unfolding map_map comp_def
    by (rule map_cong[OF refl]) (simp add: rows sa_example_permute[OF assms(5)])
  then have y': "SelfAttention_forward P (permute_positions p x)
      = Inr (permute_positions p \<lparr>shape = [b, t, k], vals = map (sa_example P t k) ?X\<rparr>)"
    unfolding x' by (simp add: SelfAttention_forward_ok[OF assms(1,2) sh'] permute_positions_def)
  have equi: "\<exists>w y. sa_w P x = Inr w \<and> SelfAttention_forward P x = Inr y \<and>
           sa_w P (permute_positions p x) = Inr (map (\<lambda>m. map (permute p) (permute p m)) w) \<and>
           SelfAttention_forward P (permute_positions p x) = Inr (permute_positions p y)"
    using w y w' y' by blast
  have "wf_SelfAttention demo_sa \<and> shape demo_x = [1, 2, sa_k demo_sa] \<and>
      has_shape3 1 2 (sa_k demo_sa) (vals demo_x) \<and> is_perm 2 [1, 0] \<and>
      sa_w demo_sa (permute_positions [1, 0] demo_x) \<noteq> sa_w demo_sa demo_x"
    using demo_sa_wf demo_x_shape demo_perm weights_not_invariant demo_sa_k by simp
  then show ?thesis using equi by blast
qed

theorem self_attention_permutation_equivariant_witness:
  "wf_SelfAttention demo_sa \<and> 1 = sa_k demo_sa \<and> shape demo_x = [1, 2, 1] \<and>
   has_shape3 1 2 1 (vals demo_x) \<and> is_perm 2 [1, 0] \<and>
   (\<exists>w y. sa_w demo_sa demo_x = Inr w \<and> SelfAttention_forward demo_sa demo_x = Inr y \<and>
      sa_w demo_sa (permute_positions [1, 0] demo_x)
        = Inr (map (\<lambda>m. map (permute [1, 0]) (permute [1, 0] m)) w) \<and>
      SelfAttention_forward demo_sa (permute_positions [1, 0] demo_x)
        = Inr (permute_positions [1, 0] y)) \<and>
   (\<exists>P' x' p' b' t'. wf_SelfAttention P' \<and> shape x' = [b', t', sa_k P'] \<and>
      has_shape3 b' t' (sa_k P') (vals x') \<and> is_perm t' p' \<and>
      sa_w P' (permute_positions p' x') \<noteq> sa_w P' x')"
  using self_attention_permutation_equivariant[OF demo_sa_wf demo_sa_k demo_x_shape demo_perm]
    demo_sa_wf demo_sa_k demo_x_shape demo_perm
  by (intro conjI) blast+

section \<open>Float32 arithmetic\<close>

lemma FLT_MAX_ge_1: "1 \<le> FLT_MAX"
  by (simp add: FLT_MAX_def)

lemma ovf_in_range: "- FLT_MAX \<le> r \<Longrightarrow> r \<le> FLT_MAX \<Longrightarrow> ovf r = Fin r"
  by (simp add: ovf_def)

lemma ovf_unit: "0 \<le> r \<Longrightarrow> r \<le> 1 \<Longrightarrow> ovf r = Fin r"
  using FLT_MAX_ge_1 by (intro ovf_in_range) linarith+

lemma fin_row: "\<forall>s\<in>set row. is_fin s \<Longrightarrow> \<exists>rs. row = map Fin rs"
proof (induction row)
  case Nil
  then show ?case by simp
next
  case (Cons a row)
  then obtain rs where "row = map Fin rs" by auto
  moreover obtain r where "a = Fin r" using Cons.prems by (cases a) auto
  ultimately have "a # row = map Fin (r # rs)" by simp
  then show ?case by (rule exI)
qed

lemma foldl_fl_add_unit:
  assumes "\<forall>e\<in>set es. 0 \<le> e \<and> e \<le> 1" and "0 \<le> a" and "a + real (length es) \<le> FLT_MAX"
  shows "foldl fl_add (Fin a) (map Fin es) = Fin (a + sum_list es)"
  using assms
proof (induction es arbitrary: a)
  case Nil
  then show ?case by simp
next
  case (Cons e es)
  have e: "0 \<le> e" "e \<le> 1" using Cons.prems(1) by auto
  have "ovf (a + e) = Fin (a + e)"
    using Cons.prems(2,3) e by (intro ovf_in_range) (simp_all add: algebra_simps)
  moreover have "foldl fl_add (Fin (a + e)) (map Fin es) = Fin (a + e + sum_list es)"
    using Cons.prems e by (intro Cons.IH) (simp_all add: algebra_simps)
  ultimately show ?case by (simp add: algebra_simps)
qed

lemma fl_sum_unit:
  assumes "\<forall>e\<in>set es. 0 \<le> e \<and> e \<le> 1" and "real (length es) \<le> FLT_MAX"
  shows "fl_sum (map Fin es) = Fin (sum_list es)"
  using foldl_fl_add_unit[OF assms(1), of 0] assms(2) by (simp add: fl_sum_def)

lemma foldl_fl_max:
  "\<exists>M. foldl fl_max (Fin a) (map Fin rs) = Fin M \<and> M \<in> set (a # rs) \<and> (\<forall>s\<in>set (a # rs). s \<le> M)"
proof (induction rs arbitrary: a)
  case Nil
  then show ?case by simp
next
  case (Cons r rs)
  obtain M where M: "foldl fl_max (Fin (max a r)) (map Fin rs) = Fin M"
    "M \<in> set (max a r # rs)" "\<forall>s\<in>set (max a r # rs). s \<le> M"
    using Cons.IH[of "max a r"] by blast
  have "M \<in> set (a # r # rs)"
    using M(2) by (auto simp: max_def split: if_splits)
  moreover have "\<forall>s\<in>set (a # r # rs). s \<le> M"
    using M(3) by auto
  ultimately show ?case using M(1) by auto
qed

lemma fl_maximum_fin:
  assumes "rs \<noteq> []"
  shows "\<exists>M. fl_maximum (map Fin rs) = Fin M \<and> M \<in> set rs \<and> (\<forall>s\<in>set rs. s \<le> M)"
proof -
  obtain a rs' where rs: "rs = a # rs'" using assms by (cases rs) auto
  show ?thesis
    using foldl_fl_max[of a rs'] unfolding rs fl_maximum_def by simp
qed

lemma softmax_fl_finite:
  assumes "rs \<noteq> []" and "real (length rs) \<le> FLT_MAX"
  shows "\<exists>ws. softmax_fl (map Fin rs) = map Fin ws \<and> length ws = length rs \<and>
           (\<forall>w\<in>set ws. 0 \<le> w \<and> w \<le> 1) \<and> fl_sum (map Fin ws) = Fin 1"
proof -
  obtain M where M: "fl_maximum (map Fin rs) = Fin M" "M \<in> set rs" "\<forall>s\<in>set rs. s \<le> M"
    using fl_maximum_fin[OF assms(1)] by blast
  define g where "g = (\<lambda>s. if s - M < - FLT_MAX then 0 else exp (s - M))"
  define es where "es = map g rs"
  have g01: "0 \<le> g s \<and> g s \<le> 1" if "s \<le> M" for s
    using that by (simp add: g_def)
  have gexp: "fl_exp (fl_sub (Fin s) (Fin M)) = Fin (g s)" if "s \<le> M" for s
  proof (cases "s - M < - FLT_MAX")
    case True
    then have "ovf (s - M) = NInf"
      using FLT_MAX_ge_1 by (simp add: ovf_def)
    then show ?thesis using True by (simp add: fl_sub_def g_def)
  next
    case False
    then have "ovf (s - M) = Fin (s - M)"
      using that FLT_MAX_ge_1 by (intro ovf_in_range) linarith+
    moreover have "ovf (exp (s - M)) = Fin (exp (s - M))"
      using that by (intro ovf_unit) simp_all
    ultimately show ?thesis using False by (simp add: fl_sub_def g_def)
  qed
  have exps: "map (\<lambda>s. fl_exp (fl_sub s (fl_maximum (map Fin rs)))) (map Fin rs) = map Fin es"
    unfolding M(1) es_def map_map comp_def
    by (rule map_cong[OF refl]) (simp add: gexp M(3))
  have es01: "\<forall>e\<in>set es. 0 \<le> e \<and> e \<le> 1"
    using g01 M(3) by (auto simp: es_def)
  have "g M = 1" using FLT_MAX_ge_1 by (simp add: g_def)
  then have "1 \<in> set es" using M(2) by (force simp: es_def)
  then have S1: "1 \<le> sum_list es"
    using es01 by (intro member_le_sum_list) auto
  have len: "length es = length rs" by (simp add: es_def)
  have sumes: "fl_sum (map Fin es) = Fin (sum_list es)"
    using es01 assms(2) len by (intro fl_sum_unit) simp_all
  define ws where "ws = map (\<lambda>e. e / sum_list es) es"
  have w01: "\<forall>w\<in>set ws. 0 \<le> w \<and> w \<le> 1"
  proof
    fix w assume "w \<in> set ws"
    then obtain e where e: "e \<in> set es" "w = e / sum_list es" by (auto simp: ws_def)
    then have "0 \<le> e" "e \<le> sum_list es" using es01 S1 by force+
    then show "0 \<le> w \<and> w \<le> 1" using e(2) S1 by (simp add: divide_le_eq_1)
  qed
  have divs: "map (\<lambda>e. fl_div e (Fin (sum_list es))) (map Fin es) = map Fin ws"
    unfolding ws_def map_map comp_def
  proof (rule map_cong[OF refl])
    fix e assume "e \<in> set es"
    then have "e / sum_list es \<in> set ws" by (auto simp: ws_def)
    then have "ovf (e / sum_list es) = Fin (e / sum_list es)"
      using w01 by (intro ovf_unit) auto
    then show "fl_div (Fin e) (Fin (sum_list es)) = Fin (e / sum_list es)"
      using S1 by simp
  qed
  have ne: "map Fin rs \<noteq> []"
    using assms(1) by simp
  have sm: "softmax_fl (map Fin rs) = map Fin ws"
    unfolding softmax_fl_def Let_def exps sumes divs using ne by (simp only: if_False)
  have "sum_list ws = 1"
    using S1 by (simp add: ws_def divide_inverse sum_list_mult_const)
  moreover have "fl_sum (map Fin ws) = Fin (sum_list ws)"
    using w01 assms(2) len by (intro fl_sum_unit) (simp_all add: ws_def)
  ultimately show ?thesis
    using sm w01 len by (intro exI[of _ ws]) (simp add: ws_def)
qed

section \<open>Attention weights on float32 tensors\<close>

lemma length_Linear_vec_fl [simp]: "length (Linear_vec_fl L v) = out_features L"
  by (simp add: Linear_vec_fl_def)

lemma length_heads_of_fl [simp]: "length (heads_of_fl W h k e) = h"
  by (simp add: heads_of_fl_def transpose_n_def)

lemma heads_of_fl_shape:
  assumes "out_features W = k * h" "length e = t"
  shows "has_shape3 h t k (heads_of_fl W h k e)"
proof -
  have "length (take k (drop (i * k) (Linear_vec_fl W v))) = k" if "i < h" for i v
  proof -
    have "Suc i * k \<le> h * k" using that by (intro mult_le_mono1) simp
    then show ?thesis using assms(1) by (simp add: mult.commute)
  qed
  then show ?thesis using assms(2)
    by (auto simp: has_shape3_def has_shape2_def heads_of_fl_def transpose_n_def view_last_def)
qed

lemma project_heads_fl_ok:
  "in_features W = k \<Longrightarrow> out_features W = k * h \<Longrightarrow>
   project_heads_fl W h k \<lparr>shape = [b, t, k], vals = X\<rparr>
     = Inr (map (map (\<lambda>v. view_last h k (Linear_vec_fl W v))) X)"
  by (simp add: project_heads_fl_def Linear_forward_fl_def)

lemma fold_heads_fl_eq:
  "fold_heads_fl h (map (map (\<lambda>v. view_last h k (Linear_vec_fl W v))) X)
     = concat (map (heads_of_fl W h k) X)"
  by (simp add: fold_heads_fl_def heads_of_fl_def[abs_def] comp_def)

lemma sa_qkv_fl_ok:
  assumes "wf_SelfAttention P" "k = sa_k P"
  shows "sa_qkv_fl P \<lparr>shape = [b, t, k], vals = X\<rparr>
     = Inr (concat (map (heads_of_fl (Wq P) (sa_h P) k) X),
            concat (map (heads_of_fl (Wk P) (sa_h P) k) X),
            concat (map (heads_of_fl (Wv P) (sa_h P) k) X))"
  using assms
  by (simp add: sa_qkv_fl_def wf_SelfAttention_def project_heads_fl_ok fold_heads_fl_eq)

lemma raw_weights_fl_shape:
  assumes "has_shape3 n t k Q" and "has_shape3 n t k K"
  shows "has_shape3 n t t (raw_weights_fl t k Q K)"
proof -
  let ?f = "\<lambda>s. fl_div s (Fin (sqrt (real k)))"
  have "has_shape2 t t (map (map ?f) (matmul_fl k t q c))"
    if "(q, c) \<in> set (zip Q (map (transpose_n k) K))" for q c
  proof -
    have "q \<in> set Q" using that by (rule set_zip_leftD)
    then have "length q = t" using assms(1) by (simp add: has_shape3_def has_shape2_def)
    then show ?thesis by (auto simp: has_shape2_def matmul_fl_def)
  qed
  then have "\<forall>m\<in>set (raw_weights_fl t k Q K). has_shape2 t t m"
    by (auto simp: raw_weights_fl_def bmm_fl_def)
  moreover have "length (raw_weights_fl t k Q K) = n"
    using assms by (simp add: raw_weights_fl_def bmm_fl_def has_shape3_def)
  ultimately show ?thesis by (simp add: has_shape3_def)
qed

lemma sa_w_prime_fl_shape:
  assumes "wf_SelfAttention P" and "k = sa_k P"
    and "shape x = [b, t, k]" and "has_shape3 b t k (vals x)"
    and "sa_w_prime_fl P x = Inr S"
  shows "has_shape3 (b * sa_h P) t t S"
proof -
  let ?X = "vals x" and ?h = "sa_h P"
  let ?Q = "concat (map (heads_of_fl (Wq P) ?h k) ?X)"
  let ?K = "concat (map (heads_of_fl (Wk P) ?h k) ?X)"
  have x: "x = \<lparr>shape = [b, t, k], vals = ?X\<rparr>"
    using assms(3) by simp
  have len: "length ?X = b" and rows: "\<forall>e\<in>set ?X. length e = t"
    using assms(4) by (auto simp: has_shape3_def has_shape2_def)
  have outs: "out_features (Wq P) = k * ?h" "out_features (Wk P) = k * ?h"
    using assms(1,2) by (simp_all add: wf_SelfAttention_def)
  have shQ: "has_shape3 (b * ?h) t k ?Q"
    using concat_shape[of ?X ?h t k "heads_of_fl (Wq P) ?h k"] rows len
    by (simp add: heads_of_fl_shape[OF outs(1)])
  have shK: "has_shape3 (b * ?h) t k ?K"
    using concat_shape[of ?X ?h t k "heads_of_fl (Wk P) ?h k"] rows len
    by (simp add: heads_of_fl_shape[OF outs(2)])
  have "sa_w_prime_fl P x = Inr (raw_weights_fl t k ?Q ?K)"
    by (subst x) (simp add: sa_w_prime_fl_def sa_qkv_fl_ok[OF assms(1,2)])
  then have "S = raw_weights_fl t k ?Q ?K"
    using assms(5) by simp
  then show ?thesis
    using raw_weights_fl_shape[OF shQ shK] by simp
qed

lemmas fl_eval = sa_w_fl_def sa_w_prime_fl_def sa_qkv_fl_def project_heads_fl_def Linear_forward_fl_def
  Linear_vec_fl_def fold_heads_fl_def raw_weights_fl_def bmm_fl_def matmul_fl_def softmax_fl_def
  fl_sum_def fl_maximum_def fl_sub_def ovf_def FLT_MAX_def view_last_def transpose_n_def
  demo_sa_def eval_nat_numeral Let_def unfold_heads_fl_def SelfAttention_forward_fl_def

lemma demo_fx_scores:
  "sa_w_prime_fl demo_sa demo_fx
     = Inr [[[Fin 0, Fin 0], [Fin 0, Fin 1]], [[Fin 0, Fin 0], [Fin 0, Fin 2]]]"
  by (simp add: demo_fx_def fl_eval)

lemma demo_fx1_scores: "sa_w_prime_fl demo_sa demo_fx1 = Inr [[[Fin 4]], [[Fin 8]]]"
  by (simp add: demo_fx1_def fl_eval)

text \<open>
  Claim C4, as stated, fails: on the input whose two positions hold \<open>10\<^sup>2\<^sup>0\<close> the products of
  queries and keys overflow, every raw score is infinite and every row of the attention
  weights is \<open>NaN\<close>; such a row does not sum to 1.
\<close>

theorem sa_weights_nan_on_overflow:
  "wf_SelfAttention demo_sa \<and> shape demo_big = [1, 2, sa_k demo_sa] \<and>
   has_shape3 1 2 (sa_k demo_sa) (vals demo_big) \<and>
   sa_w_prime_fl demo_sa demo_big
     = Inr [[[PInf, PInf], [PInf, PInf]], [[PInf, PInf], [PInf, PInf]]] \<and>
   sa_w_fl demo_sa demo_big = Inr [[[NaN, NaN], [NaN, NaN]], [[NaN, NaN], [NaN, NaN]]] \<and>
   fl_sum [NaN, NaN] = NaN"
proof -
  have 1: "sa_w_prime_fl demo_sa demo_big
     = Inr [[[PInf, PInf], [PInf, PInf]], [[PInf, PInf], [PInf, PInf]]]"
    by (simp add: demo_big_def fl_eval)
  have 2: "sa_w_fl demo_sa demo_big = Inr [[[NaN, NaN], [NaN, NaN]], [[NaN, NaN], [NaN, NaN]]]"
    unfolding sa_w_fl_def 1
    by (simp add: softmax_fl_def fl_maximum_def fl_sub_def fl_sum_def)
  have 3: "shape demo_big = [1, 2, sa_k demo_sa]" "has_shape3 1 2 (sa_k demo_sa) (vals demo_big)"
    by (simp_all add: demo_big_def demo_sa_def has_shape3_def has_shape2_def)
  show ?thesis
    using demo_sa_wf 1 2 3 by (simp add: fl_sum_def)
qed

text \<open>
  Claim C4, amended.  For a well-formed module and an input of shape \<open>[b, t, k]\<close> whose raw
  attention scores are all finite (no product or sum overflows, and \<open>k > 0\<close>), every row
  of the attention weight tensor is row-stochastic: its entries are numbers between 0 and 1
  and sum to 1.  The sequence length \<open>t\<close> is at most the largest float, as the length of
  every tensor that fits in memory is, so that the sum of \<open>t\<close> exponentials, each at most
  1, stays finite.
\<close>

theorem sa_weights_row_stochastic_when_scores_finite:
  assumes "wf_SelfAttention P" and "k = sa_k P"
    and "shape x = [b, t, k]" and "has_shape3 b t k (vals x)"
    and "real t \<le> FLT_MAX"
    and "sa_w_prime_fl P x = Inr S" and "finite3 S"
  shows "\<exists>w. sa_w_fl P x = Inr w \<and> has_shape3 (b * sa_h P) t t w \<and>
           (\<forall>m\<in>set w. \<forall>row\<in>set m.
              fl_sum row = Fin 1 \<and> (\<forall>a\<in>set row. \<exists>r. a = Fin r \<and> 0 \<le> r \<and> r \<le> 1))"
proof -
  let ?w = "map (map softmax_fl) S"
  have shS: "has_shape3 (b * sa_h P) t t S"
    by (rule sa_w_prime_fl_shape[OF assms(1,2,3,4,6)])
  have w: "sa_w_fl P x = Inr ?w"
    by (simp add: sa_w_fl_def assms(6))
  have row: "length (softmax_fl r) = t \<and> fl_sum (softmax_fl r) = Fin 1 \<and>
      (\<forall>a\<in>set (softmax_fl r). \<exists>v. a = Fin v \<and> 0 \<le> v \<and> v \<le> 1)"
    if m: "m \<in> set S" and r: "r \<in> set m" for m r
  proof -
    have lr: "length r = t"
      using shS m r by (auto simp: has_shape3_def has_shape2_def)
    have "length m = t"
      using shS m by (auto simp: has_shape3_def has_shape2_def)
    then have "t \<noteq> 0" using r by auto
    then have ne: "r \<noteq> []" using lr by auto
    have "\<forall>s\<in>set r. is_fin s"
      using assms(7) m r by (auto simp: finite3_def)
    then obtain rs where rs: "r = map Fin rs"
      using fin_row by blast
    have "rs \<noteq> []" "real (length rs) \<le> FLT_MAX"
      using ne lr assms(5) rs by auto
    then obtain ws where ws: "softmax_fl (map Fin rs) = map Fin ws" "length ws = length rs"
      "\<forall>w\<in>set ws. 0 \<le> w \<and> w \<le> 1" "fl_sum (map Fin ws) = Fin 1"
      using softmax_fl_finite by blast
    show ?thesis
      using ws lr unfolding rs by auto
  qed
  have "has_shape3 (b * sa_h P) t t ?w"
    using shS row by (auto simp: has_shape3_def has_shape2_def)
  moreover have "\<forall>m\<in>set ?w. \<forall>row\<in>set m.
      fl_sum row = Fin 1 \<and> (\<forall>a\<in>set row. \<exists>r. a = Fin r \<and> 0 \<le> r \<and> r \<le> 1)"
    using row by auto
  ultimately show ?thesis using w by blast
qed

theorem sa_weights_row_stochastic_when_scores_finite_witness:
  "wf_SelfAttention demo_sa \<and> 1 = sa_k demo_sa \<and> shape demo_fx = [1, 2, 1] \<and>
   has_shape3 1 2 1 (vals demo_fx) \<and> real (2::nat) \<le> FLT_MAX \<and>
   sa_w_prime_fl demo_sa demo_fx
     = Inr [[[Fin 0, Fin 0], [Fin 0, Fin 1]], [[Fin 0, Fin 0], [Fin 0, Fin 2]]] \<and>
   finite3 [[[Fin 0, Fin 0], [Fin 0, Fin 1]], [[Fin 0, Fin 0], [Fin 0, Fin 2]]] \<and>
   (\<exists>w. sa_w_fl demo_sa demo_fx = Inr w \<and> has_shape3 (1 * sa_h demo_sa) 2 2 w \<and>
      (\<forall>m\<in>set w. \<forall>row\<in>set m.
         fl_sum row = Fin 1 \<and> (\<forall>a\<in>set row. \<exists>r. a = Fin r \<and> 0 \<le> r \<and> r \<le> 1)))"
proof -
  have sh: "shape demo_fx = [1, 2, 1]" "has_shape3 1 2 1 (vals demo_fx)"
    by (simp_all add: demo_fx_def has_shape3_def has_shape2_def)
  have t: "real (2::nat) \<le> FLT_MAX"
    by (simp add: FLT_MAX_def)
  have fin: "finite3 [[[Fin 0, Fin 0], [Fin 0, Fin 1]], [[Fin 0, Fin 0], [Fin 0, Fin 2]]]"
    by (simp add: finite3_def)
  show ?thesis
    using sa_weights_row_stochastic_when_scores_finite[OF demo_sa_wf demo_sa_k sh t
        demo_fx_scores fin]
      demo_sa_wf demo_sa_k sh t demo_fx_scores fin
    by (intro conjI)
qed

section \<open>A single position\<close>

lemma valid_ovf: "valid_fl (ovf r)"
  by (simp add: ovf_def)

lemma valid_fl_add: "valid_fl (fl_add a c)"
  by (cases a; cases c) (simp_all add: valid_ovf)

lemma valid_foldl_fl_add: "valid_fl a \<Longrightarrow> valid_fl (foldl fl_add a xs)"
  by (induction xs arbitrary: a) (simp_all add: valid_fl_add)

lemma valid_fl_sum: "valid_fl (fl_sum xs)"
  using FLT_MAX_ge_1 by (simp add: fl_sum_def valid_foldl_fl_add)

lemma valid_Linear_vec_fl: "y \<in> set (Linear_vec_fl L v) \<Longrightarrow> valid_fl y"
  by (auto simp: Linear_vec_fl_def Let_def valid_fl_sum valid_fl_add split: option.splits)

lemma fl_mul_one: "valid_fl y \<Longrightarrow> fl_mul (Fin 1) y = y"
  by (cases y) (simp_all add: ovf_in_range)

lemma fl_add_zero: "valid_fl y \<Longrightarrow> fl_add (Fin 0) y = y"
  by (cases y) (simp_all add: ovf_in_range)

lemma softmax_fl_single: "softmax_fl [Fin s] = [Fin 1]"
  by (simp add: softmax_fl_def fl_maximum_def fl_sub_def fl_sum_def ovf_def FLT_MAX_def)

lemma matmul_fl_single:
  assumes "length v = k" and "\<forall>y\<in>set v. valid_fl y"
  shows "matmul_fl (Suc 0) k [[Fin 1]] [v] = [v]"
proof -
  have "fl_sum [fl_mul (Fin 1) (v ! j)] = v ! j" if "j < k" for j
  proof -
    have "valid_fl (v ! j)" using that assms by simp
    then show ?thesis by (simp add: fl_sum_def fl_mul_one fl_add_zero)
  qed
  then have "map (\<lambda>j. fl_sum [fl_mul (Fin 1) (v ! j)]) [0..<k] = map (\<lambda>j. v ! j) [0..<k]"
    by simp
  also have "\<dots> = v"
    using assms(1) map_nth[of v] by simp
  finally show ?thesis
    by (simp add: matmul_fl_def)
qed

lemma heads_of_fl_single:
  "heads_of_fl W h k [u] = map (\<lambda>j. [view_last h k (Linear_vec_fl W u) ! j]) [0..<h]"
  by (simp add: heads_of_fl_def transpose_n_def)

lemma view_last_nth_set: "j < n \<Longrightarrow> set (view_last n m v ! j) \<subseteq> set v"
  by (auto simp: view_last_def dest: in_set_takeD in_set_dropD)

lemma unfold_single:
  assumes "out_features W = h * k"
  shows "map concat (transpose_n (Suc 0) (heads_of_fl W h k [u])) = [Linear_vec_fl W u]"
proof -
  let ?V = "Linear_vec_fl W u"
  have lV: "length ?V = h * k" using assms by simp
  have "transpose_n (Suc 0) (map (\<lambda>j. [view_last h k ?V ! j]) [0..<h])
      = [map (\<lambda>j. view_last h k ?V ! j) [0..<h]]"
    by (simp add: transpose_n_def comp_def)
  also have "map (\<lambda>j. view_last h k ?V ! j) [0..<h] = view_last h k ?V"
    using map_nth[of "view_last h k ?V"] by simp
  finally show ?thesis
    by (simp add: heads_of_fl_single concat_view_last[OF lV])
qed

lemma attend_fl_single:
  assumes "out_features W = h * k"
  shows "map2 (matmul_fl (Suc 0) k) (replicate h [[Fin 1]]) (heads_of_fl W h k [u])
           = heads_of_fl W h k [u]"
proof -
  let ?V = "Linear_vec_fl W u"
  have lV: "length ?V = h * k" using assms by simp
  have one: "matmul_fl (Suc 0) k [[Fin 1]] [view_last h k ?V ! j] = [view_last h k ?V ! j]"
    if "j < h" for j
  proof (rule matmul_fl_single)
    show "length (view_last h k ?V ! j) = k"
      by (rule view_last_nth_length[OF lV that])
    show "\<forall>y\<in>set (view_last h k ?V ! j). valid_fl y"
      using view_last_nth_set[OF that, of k ?V] valid_Linear_vec_fl by blast
  qed
  have "replicate h [[Fin 1]] = map (\<lambda>j. [[Fin 1]]) [0..<h]"
    by (simp add: map_replicate_const)
  then have "map2 (matmul_fl (Suc 0) k) (replicate h [[Fin 1]]) (heads_of_fl W h k [u])
      = map (\<lambda>j. matmul_fl (Suc 0) k [[Fin 1]] [view_last h k ?V ! j]) [0..<h]"
    by (simp add: heads_of_fl_single zip_map_same)
  also have "\<dots> = map (\<lambda>j. [view_last h k ?V ! j]) [0..<h]"
    using one by simp
  finally show ?thesis by (simp add: heads_of_fl_single)
qed

lemma concat_replicate_replicate:
  "concat (replicate n (replicate m a)) = replicate (n * m) a"
  by (induction n) (simp_all add: replicate_add)

text \<open>
  Claim C6, as stated, fails: for the single position \<open>10\<^sup>2\<^sup>0\<close> the score overflows, its
  softmax is \<open>NaN\<close> and so is the output, while the value projection passed through the
  unifying projection is \<open>4 \<cdot> 10\<^sup>2\<^sup>0\<close>.
\<close>

theorem self_attention_single_position_nan_on_overflow:
  "wf_SelfAttention demo_sa \<and> shape demo_big1 = [1, 1, sa_k demo_sa] \<and>
   has_shape3 1 1 (sa_k demo_sa) (vals demo_big1) \<and>
   SelfAttention_forward_fl demo_sa demo_big1 = Inr \<lparr>shape = [1, 1, 1], vals = [[[NaN]]]\<rparr> \<and>
   bind_err (Linear_forward_fl (Wv demo_sa) demo_big1) (Linear_forward_fl (unifyheads demo_sa))
     = Inr \<lparr>shape = [1, 1, 1], vals = [[[Fin (4 * 10 ^ 20)]]]\<rparr>"
proof -
  have 1: "SelfAttention_forward_fl demo_sa demo_big1 = Inr \<lparr>shape = [1, 1, 1], vals = [[[NaN]]]\<rparr>"
    by (simp add: demo_big1_def fl_eval)
  have 2: "bind_err (Linear_forward_fl (Wv demo_sa) demo_big1) (Linear_forward_fl (unifyheads demo_sa))
     = Inr \<lparr>shape = [1, 1, 1], vals = [[[Fin (4 * 10 ^ 20)]]]\<rparr>"
    by (simp add: demo_big1_def fl_eval)
  have 3: "shape demo_big1 = [1, 1, sa_k demo_sa]" "has_shape3 1 1 (sa_k demo_sa) (vals demo_big1)"
    by (simp_all add: demo_big1_def demo_sa_def has_shape3_def has_shape2_def)
  show ?thesis
    using demo_sa_wf 1 2 3 by simp
qed

text \<open>
  Claim C6, amended.  For a well-formed module and an input of shape \<open>[b, 1, k]\<close>, a
  single position, whose raw attention scores are finite, every attention weight is 1 (the
  softmax of a single finite score) and \<open>SelfAttention.forward\<close> returns exactly the value
  projection of that position passed through the unifying projection.
\<close>

theorem self_attention_single_position_when_score_finite:
  assumes "wf_SelfAttention P" and "k = sa_k P"
    and "shape x = [b, 1, k]" and "has_shape3 b 1 k (vals x)"
    and "sa_w_prime_fl P x = Inr S" and "finite3 S"
  shows "SelfAttention_forward_fl P x
           = bind_err (Linear_forward_fl (Wv P) x) (Linear_forward_fl (unifyheads P)) \<and>
         SelfAttention_forward_fl P x
           = Inr \<lparr>shape = [b, 1, k],
                  vals = map (map (\<lambda>u. Linear_vec_fl (unifyheads P) (Linear_vec_fl (Wv P) u)))
                           (vals x)\<rparr> \<and>
         sa_w_fl P x = Inr (replicate (b * sa_h P) [[Fin 1]])"
proof -
  let ?X = "vals x" and ?h = "sa_h P"
  let ?V = "concat (map (heads_of_fl (Wv P) ?h k) ?X)"
  have x: "x = \<lparr>shape = [b, 1, k], vals = ?X\<rparr>"
    using assms(3) by simp
  have lenX: "length ?X = b"
    using assms(4) by (simp add: has_shape3_def)
  have single: "\<exists>u. e = [u]" if "e \<in> set ?X" for e
  proof -
    have "length e = 1" using that assms(4) by (simp add: has_shape3_def has_shape2_def)
    then show ?thesis by (cases e) auto
  qed
  have feats: "in_features (Wv P) = k" "out_features (Wv P) = k * ?h"
    "in_features (unifyheads P) = ?h * k" "out_features (unifyheads P) = k"
    using assms(1,2) by (simp_all add: wf_SelfAttention_def)
  have outV: "out_features (Wv P) = ?h * k"
    using feats(2) by (simp add: mult.commute)
  have qkv: "sa_qkv_fl P x = Inr (concat (map (heads_of_fl (Wq P) ?h k) ?X),
            concat (map (heads_of_fl (Wk P) ?h k) ?X), ?V)"
    by (subst x) (rule sa_qkv_fl_ok[OF assms(1,2)])
  have shS: "has_shape3 (b * ?h) 1 1 S"
    by (rule sa_w_prime_fl_shape[OF assms(1,2,3,4,5)])
  have "map softmax_fl m = [[Fin 1]]" if m: "m \<in> set S" for m
  proof -
    have "length m = 1" "\<forall>r\<in>set m. length r = 1"
      using shS m by (auto simp: has_shape3_def has_shape2_def)
    then obtain r where r: "m = [r]" "length r = 1"
      by (cases m) auto
    then obtain s where s: "r = [s]" by (cases r) auto
    have "is_fin s" using assms(6) m r(1) s by (auto simp: finite3_def)
    then obtain v where "s = Fin v" by (cases s) auto
    then show ?thesis using r(1) s by (simp add: softmax_fl_single)
  qed
  then have "map (map softmax_fl) S = map (\<lambda>m. [[Fin 1]]) S"
    by simp
  also have "\<dots> = replicate (b * ?h) [[Fin 1]]"
    using shS by (simp add: map_replicate_const has_shape3_def)
  finally have w: "sa_w_fl P x = Inr (replicate (b * ?h) [[Fin 1]])"
    by (simp add: sa_w_fl_def assms(5))
  have rep: "replicate (b * ?h) [[Fin 1]] = concat (map (\<lambda>e. replicate ?h [[Fin 1]]) ?X)"
    using lenX by (simp add: map_replicate_const concat_replicate_replicate)
  have out: "bmm_fl 1 k (replicate (b * ?h) [[Fin 1]]) ?V = ?V"
  proof -
    have "bmm_fl 1 k (replicate (b * ?h) [[Fin 1]]) ?V
        = concat (map (\<lambda>e. map2 (matmul_fl 1 k) (replicate ?h [[Fin 1]]) (heads_of_fl (Wv P) ?h k e)) ?X)"
      unfolding bmm_def bmm_fl_def rep by (rule map2_concat) simp
    also have "\<dots> = concat (map (heads_of_fl (Wv P) ?h k) ?X)"
    proof (rule arg_cong[where f = concat], rule map_cong[OF refl])
      fix e assume "e \<in> set ?X"
      then obtain u where "e = [u]" using single by blast
      then show "map2 (matmul_fl 1 k) (replicate ?h [[Fin 1]]) (heads_of_fl (Wv P) ?h k e)
          = heads_of_fl (Wv P) ?h k e"
        using attend_fl_single[OF outV] by simp
    qed
    finally show ?thesis .
  qed
  have "view_last b ?h ?V = map (heads_of_fl (Wv P) ?h k) ?X"
    using view_last_concat[of "map (heads_of_fl (Wv P) ?h k) ?X" ?h] lenX by simp
  then have "unfold_heads_fl b ?h 1 ?V
      = map (\<lambda>e. map concat (transpose_n 1 (heads_of_fl (Wv P) ?h k e))) ?X"
    by (simp add: unfold_heads_fl_def)
  also have "\<dots> = map (map (Linear_vec_fl (Wv P))) ?X"
  proof (rule map_cong[OF refl])
    fix e assume "e \<in> set ?X"
    then obtain u where "e = [u]" using single by blast
    then show "map concat (transpose_n 1 (heads_of_fl (Wv P) ?h k e)) = map (Linear_vec_fl (Wv P)) e"
      using unfold_single[OF outV] by simp
  qed
  finally have unf: "unfold_heads_fl b ?h 1 ?V = map (map (Linear_vec_fl (Wv P))) ?X" .
  have fw: "SelfAttention_forward_fl P x
           = Inr \<lparr>shape = [b, 1, k],
                  vals = map (map (\<lambda>u. Linear_vec_fl (unifyheads P) (Linear_vec_fl (Wv P) u))) ?X\<rparr>"
    by (simp add: SelfAttention_forward_fl_def assms(3) qkv w out unf Let_def
        Linear_forward_fl_def feats comp_def del: One_nat_def)
  have lin: "bind_err (Linear_forward_fl (Wv P) x) (Linear_forward_fl (unifyheads P))
      = Inr \<lparr>shape = [b, 1, k],
                  vals = map (map (\<lambda>u. Linear_vec_fl (unifyheads P) (Linear_vec_fl (Wv P) u))) ?X\<rparr>"
    by (simp add: Linear_forward_fl_def assms(3) feats mult.commute comp_def)
  show ?thesis using fw lin w by simp
qed

theorem self_attention_single_position_when_score_finite_witness:
  "wf_SelfAttention demo_sa \<and> 1 = sa_k demo_sa \<and> shape demo_fx1 = [1, 1, 1] \<and>
   has_shape3 1 1 1 (vals demo_fx1) \<and>
   sa_w_prime_fl demo_sa demo_fx1 = Inr [[[Fin 4]], [[Fin 8]]] \<and>
   finite3 [[[Fin 4]], [[Fin 8]]] \<and>
   SelfAttention_forward_fl demo_sa demo_fx1
     = bind_err (Linear_forward_fl (Wv demo_sa) demo_fx1) (Linear_forward_fl (unifyheads demo_sa)) \<and>
   SelfAttention_forward_fl demo_sa demo_fx1
     = Inr \<lparr>shape = [1, 1, 1],
            vals = map (map (\<lambda>u. Linear_vec_fl (unifyheads demo_sa) (Linear_vec_fl (Wv demo_sa) u)))
                     (vals demo_fx1)\<rparr> \<and>
   sa_w_fl demo_sa demo_fx1 = Inr (replicate (1 * sa_h demo_sa) [[Fin 1]])"
proof -
  have sh: "shape demo_fx1 = [1, 1, 1]" "has_shape3 1 1 1 (vals demo_fx1)"
    by (simp_all add: demo_fx1_def has_shape3_def has_shape2_def)
  have fin: "finite3 [[[Fin 4]], [[Fin 8]]]"
    by (simp add: finite3_def)
  show ?thesis
    using self_attention_single_position_when_score_finite[OF demo_sa_wf demo_sa_k sh
        demo_fx1_scores fin]
      demo_sa_wf demo_sa_k sh demo_fx1_scores fin
    by (intro conjI) blast+
qed

section \<open>Layer normalisation on float32 tensors\<close>





















end
